theory Spec2Isabelle
  imports Complex_Main "HOL-Library.Multiset"
begin

section \<open>Python strings and values\<close>

text \<open>
  Strings are \<open>char list\<close>; the model covers ASCII text, where Python's Unicode-aware
  \<open>str.lower\<close>, \<open>str.strip\<close> and the regular-expression class \<open>\s\<close> reduce to the
  tables below. Python floats are idealised as reals: the scraper only transports them,
  compares clock readings and multiplies the back-off base by a power of two.
\<close>

definition lower_char :: "char \<Rightarrow> char" where
  "lower_char c =
     (case map_of (zip ''ABCDEFGHIJKLMNOPQRSTUVWXYZ'' ''abcdefghijklmnopqrstuvwxyz'') c of
        Some d \<Rightarrow> d
      | None \<Rightarrow> c)"

definition lower :: "string \<Rightarrow> string" where
  "lower s = map lower_char s"

definition startswith :: "string \<Rightarrow> string \<Rightarrow> bool" where
  "startswith s p = (take (length p) s = p)"

definition endswith :: "string \<Rightarrow> string \<Rightarrow> bool" where
  "endswith s p = (length p \<le> length s \<and> drop (length s - length p) s = p)"

text \<open>\<open>str_in p s\<close> is Python's \<open>p in s\<close> on strings: \<open>p\<close> occurs in \<open>s\<close> as a substring.\<close>

primrec str_in :: "string \<Rightarrow> string \<Rightarrow> bool" where
  "str_in p [] = (p = [])"
| "str_in p (c # cs) = (startswith (c # cs) p \<or> str_in p cs)"

text \<open>The characters for which \<open>str.isspace\<close> holds (and that \<open>\s\<close> matches) below 128.\<close>

definition whitespace :: "char list" where
  "whitespace = [CHR 0x09, CHR 0x0A, CHR 0x0B, CHR 0x0C, CHR 0x0D,
                 CHR 0x1C, CHR 0x1D, CHR 0x1E, CHR 0x1F, CHR 0x20]"

definition lstrip :: "char list \<Rightarrow> string \<Rightarrow> string" where
  "lstrip chars s = dropWhile (\<lambda>c. c \<in> set chars) s"

definition rstrip :: "char list \<Rightarrow> string \<Rightarrow> string" where
  "rstrip chars s = rev (dropWhile (\<lambda>c. c \<in> set chars) (rev s))"

definition strip :: "string \<Rightarrow> string" where
  "strip s = rstrip whitespace (lstrip whitespace s)"

text \<open>\<open>"sep".join(parts)\<close>.\<close>

fun join :: "string \<Rightarrow> string list \<Rightarrow> string" where
  "join sep [] = []"
| "join sep [x] = x"
| "join sep (x # y # ys) = x @ sep @ join sep (y # ys)"

text \<open>Exceptions are values; \<open>exn_str\<close> is \<open>str(exc)\<close>.\<close>

datatype exn =
    ValueError string
  | AttributeError string
  | TypeError string
  | HTTPError string

fun exn_str :: "exn \<Rightarrow> string" where
  "exn_str (ValueError m) = m"
| "exn_str (AttributeError m) = m"
| "exn_str (TypeError m) = m"
| "exn_str (HTTPError m) = m"

fun show_nat :: "nat \<Rightarrow> string" where
  "show_nat n =
     (if n < 10 then [''0123456789'' ! n]
      else show_nat (n div 10) @ [''0123456789'' ! (n mod 10)])"

definition show_int :: "int \<Rightarrow> string" where
  "show_int i = (if i < 0 then CHR ''-'' # show_nat (nat (- i)) else show_nat (nat i))"

text \<open>
  Python values as far as the scraper meets them: decoded JSON payloads, the values of the
  question-details mapping and the value and raw metadata of a signal. A \<open>dict\<close> is an
  association list in insertion order (its keys are distinct).
\<close>

datatype pyval =
    PNone
  | PBool bool
  | PInt int
  | PFloat real
  | PStr string
  | PList "pyval list"
  | PDict "(string \<times> pyval) list"

text \<open>
  The functions of the Python runtime and standard library that the code calls and whose
  bodies are outside this repository. They are parameters of the model:
  \<^item> \<open>lib_check_bracketed\<close>: urllib's validation of a netloc that has both square brackets
    (the text with which it raises \<open>ValueError\<close>, or \<open>None\<close> when the netloc passes);
  \<^item> \<open>lib_float\<close>, \<open>lib_int\<close>: \<open>float(s)\<close> and \<open>int(s)\<close> on a string (\<open>None\<close>: \<open>ValueError\<close>);
  \<^item> \<open>lib_repr\<close>: \<open>str(v)\<close> for floats, lists and dicts, and \<open>repr\<close> of a string;
  \<^item> \<open>lib_dictreader\<close>: \<open>list(csv.DictReader(StringIO(content)))\<close>, a row being the
    association list of header names and cells (\<open>None\<close> for a cell the row lacks).
\<close>

type_synonym csv_row = "(string \<times> string option) list"

record pylib =
  lib_check_bracketed :: "string \<Rightarrow> string option"
  lib_float :: "string \<Rightarrow> real option"
  lib_int :: "string \<Rightarrow> int option"
  lib_repr :: "pyval \<Rightarrow> string"
  lib_dictreader :: "string \<Rightarrow> exn + csv_row list"

definition py_str :: "pylib \<Rightarrow> pyval \<Rightarrow> string" where
  "py_str py v =
     (case v of
        PNone \<Rightarrow> ''None''
      | PBool b \<Rightarrow> (if b then ''True'' else ''False'')
      | PInt i \<Rightarrow> show_int i
      | PStr s \<Rightarrow> s
      | _ \<Rightarrow> lib_repr py v)"

definition py_type_name :: "pyval \<Rightarrow> string" where
  "py_type_name v =
     (case v of
        PNone \<Rightarrow> ''NoneType'' | PBool _ \<Rightarrow> ''bool'' | PInt _ \<Rightarrow> ''int''
      | PFloat _ \<Rightarrow> ''float'' | PStr _ \<Rightarrow> ''str'' | PList _ \<Rightarrow> ''list''
      | PDict _ \<Rightarrow> ''dict'')"

text \<open>\<open>int(v)\<close>: a float is truncated towards zero.\<close>

definition py_int :: "pylib \<Rightarrow> pyval \<Rightarrow> exn + int" where
  "py_int py v =
     (case v of
        PInt i \<Rightarrow> Inr i
      | PBool b \<Rightarrow> Inr (if b then 1 else 0)
      | PFloat r \<Rightarrow> Inr (if 0 \<le> r then \<lfloor>r\<rfloor> else \<lceil>r\<rceil>)
      | PStr s \<Rightarrow>
          (case lib_int py s of
             Some i \<Rightarrow> Inr i
           | None \<Rightarrow>
               Inl (ValueError (''invalid literal for int() with base 10: ''
                                @ lib_repr py (PStr s))))
      | _ \<Rightarrow>
          Inl (TypeError (''int() argument must be a string, a bytes-like object or ''
                          @ ''a real number, not '' @ [CHR 0x27] @ py_type_name v
                          @ [CHR 0x27])))"

text \<open>\<open>d.get(key, default)\<close> on a value that should be a dict.\<close>

definition py_get :: "pyval \<Rightarrow> string \<Rightarrow> pyval \<Rightarrow> exn + pyval" where
  "py_get d k dflt =
     (case d of
        PDict kvs \<Rightarrow> Inr (case map_of kvs k of Some v \<Rightarrow> v | None \<Rightarrow> dflt)
      | _ \<Rightarrow>
          Inl (AttributeError ([CHR 0x27] @ py_type_name d @ [CHR 0x27]
                               @ '' object has no attribute '' @ [CHR 0x27] @ ''get''
                               @ [CHR 0x27])))"

section \<open>urllib.parse.urlparse\<close>

text \<open>
  The standard library's \<open>urlparse\<close> (CPython 3.12), which \<open>classify_url\<close> and the adapters
  call. It raises \<open>ValueError\<close> when the network location has an unmatched square bracket;
  when both brackets are present it validates the bracketed host (\<open>lib_check_bracketed\<close>).
  Its check of the normalised form of a netloc does nothing on ASCII text.
\<close>

record ParseResult =
  scheme :: string
  netloc :: string
  path :: string
  params :: string
  query :: string
  fragment :: string

definition c0_control_or_space :: "char list" where
  "c0_control_or_space = map char_of [0 ..< (33::nat)]"

definition scheme_chars :: "char list" where
  "scheme_chars =
     ''abcdefghijklmnopqrstuvwxyzABCDEFGHIJKLMNOPQRSTUVWXYZ0123456789+-.''"

definition ascii_letters :: "char list" where
  "ascii_letters = ''abcdefghijklmnopqrstuvwxyzABCDEFGHIJKLMNOPQRSTUVWXYZ''"

definition uses_params :: "string list" where
  "uses_params = ['''', ''ftp'', ''hdl'', ''prospero'', ''http'', ''imap'', ''https'',
                  ''shttp'', ''rtsp'', ''rtsps'', ''rtspu'', ''sip'', ''sips'', ''mms'',
                  ''sftp'', ''tel'']"

text \<open>\<open>s.split(sep, 1)\<close> for a separator that occurs: the text before and after its first
  occurrence.\<close>

definition split_at :: "char \<Rightarrow> string \<Rightarrow> string \<times> string" where
  "split_at sep s = (takeWhile (\<lambda>c. c \<noteq> sep) s, drop 1 (dropWhile (\<lambda>c. c \<noteq> sep) s))"

definition split_scheme :: "string \<Rightarrow> string \<times> string" where
  "split_scheme url =
     (let pre = takeWhile (\<lambda>c. c \<noteq> CHR '':'') url in
      if length pre < length url \<and> 0 < length pre \<and> hd url \<in> set ascii_letters
         \<and> list_all (\<lambda>c. c \<in> set scheme_chars) pre
      then (lower pre, drop (length pre + 1) url)
      else ('''', url))"

definition splitnetloc :: "string \<Rightarrow> string \<times> string" where
  "splitnetloc url =
     (let rest = drop 2 url; stop = (\<lambda>c. c \<in> set ''/?#'') in
      (takeWhile (\<lambda>c. \<not> stop c) rest, dropWhile (\<lambda>c. \<not> stop c) rest))"

definition splitparams :: "string \<Rightarrow> string \<times> string" where
  "splitparams url =
     (let seg = rev (takeWhile (\<lambda>c. c \<noteq> CHR ''/'') (rev url));
          front = take (length url - length seg) url in
      if CHR '';'' \<in> set seg then (front @ fst (split_at CHR '';'' seg), snd (split_at CHR '';'' seg))
      else (url, ''''))"

text \<open>The split of a URL into its six components.\<close>

definition url_parts :: "string \<Rightarrow> ParseResult" where
  "url_parts url0 =
     (let url1 = filter (\<lambda>c. c \<notin> set [CHR 0x09, CHR 0x0D, CHR 0x0A])
                   (lstrip c0_control_or_space url0);
          (sch, url2) = split_scheme url1;
          (nl, url3) = (if take 2 url2 = ''//'' then splitnetloc url2 else ([], url2));
          (url4, frag) = (if CHR ''#'' \<in> set url3 then split_at CHR ''#'' url3 else (url3, []));
          (url5, qry) = (if CHR ''?'' \<in> set url4 then split_at CHR ''?'' url4 else (url4, []));
          (pth, prm) = (if sch \<in> set uses_params \<and> CHR '';'' \<in> set url5
                        then splitparams url5 else (url5, []))
      in \<lparr>scheme = sch, netloc = nl, path = pth, params = prm, query = qry,
          fragment = frag\<rparr>)"

text \<open>The checks on the network location, which raise before anything is returned.\<close>

definition urlparse :: "pylib \<Rightarrow> string \<Rightarrow> exn + ParseResult" where
  "urlparse py url0 =
     (let parsed = url_parts url0; nl = netloc parsed
      in if (CHR ''['' \<in> set nl) \<noteq> (CHR '']'' \<in> set nl)
         then Inl (ValueError ''Invalid IPv6 URL'')
         else (case (if CHR ''['' \<in> set nl then lib_check_bracketed py nl else None) of
                 Some msg \<Rightarrow> Inl (ValueError msg)
               | None \<Rightarrow> Inr parsed))"

section \<open>extraction.py\<close>

text \<open>
  The two regular expressions, each as the scanner that \<open>findall\<close> runs. A match of
  \<open>MARKDOWN_LINK_RE\<close> at the head of a text is an opening bracket, a non-empty run without a
  closing bracket, \<open>](\<close>, the scheme, a non-empty run without a closing parenthesis, and
  \<open>)\<close>; every run is the longest one, since the character that must follow it is
  excluded from the run. A match yields the captured URL and the text left after it.
\<close>

definition match_scheme :: "string \<Rightarrow> (string \<times> string) option" where
  "match_scheme s =
     (if startswith s ''https://'' then Some (''https://'', drop 8 s)
      else if startswith s ''http://'' then Some (''http://'', drop 7 s)
      else None)"

definition match_markdown_link :: "string \<Rightarrow> (string \<times> string) option" where
  "match_markdown_link s =
     (case s of
        [] \<Rightarrow> None
      | c # s1 \<Rightarrow>
          if c \<noteq> CHR ''['' \<or> takeWhile (\<lambda>x. x \<noteq> CHR '']'') s1 = [] then None
          else (case dropWhile (\<lambda>x. x \<noteq> CHR '']'') s1 of
                  b # p # s3 \<Rightarrow>
                    if b \<noteq> CHR '']'' \<or> p \<noteq> CHR ''('' then None
                    else (case match_scheme s3 of
                            None \<Rightarrow> None
                          | Some (pre, s4) \<Rightarrow>
                              if takeWhile (\<lambda>x. x \<noteq> CHR '')'') s4 = [] then None
                              else (case dropWhile (\<lambda>x. x \<noteq> CHR '')'') s4 of
                                      [] \<Rightarrow> None
                                    | _ # s6 \<Rightarrow>
                                        Some (pre @ takeWhile (\<lambda>x. x \<noteq> CHR '')'') s4, s6)))
                | _ \<Rightarrow> None))"

definition plain_url_char :: "char \<Rightarrow> bool" where
  "plain_url_char c = (c \<notin> set whitespace \<and> c \<notin> set '')>]'')"

definition match_plain_url :: "string \<Rightarrow> (string \<times> string) option" where
  "match_plain_url s =
     (case match_scheme s of
        None \<Rightarrow> None
      | Some (pre, s1) \<Rightarrow>
          if takeWhile plain_url_char s1 = [] then None
          else Some (pre @ takeWhile plain_url_char s1, dropWhile plain_url_char s1))"

text \<open>\<open>findall\<close>: the leftmost match, then on from its end; a position without a match is
  skipped. The scan is bounded by the length of the text.\<close>

fun findall_from :: "(string \<Rightarrow> (string \<times> string) option) \<Rightarrow> nat \<Rightarrow> string \<Rightarrow> string list" where
  "findall_from m 0 s = []"
| "findall_from m (Suc n) s =
     (case s of
        [] \<Rightarrow> []
      | c # cs \<Rightarrow>
          (case m s of
             Some (u, rest) \<Rightarrow> u # findall_from m n rest
           | None \<Rightarrow> findall_from m n cs))"

definition findall :: "(string \<Rightarrow> (string \<times> string) option) \<Rightarrow> string \<Rightarrow> string list" where
  "findall m s = findall_from m (length s) s"

definition clean_url :: "string \<Rightarrow> string" where
  "clean_url url = rstrip ''.,;:!?'' url"

fun dedupe :: "string set \<Rightarrow> string list \<Rightarrow> string list" where
  "dedupe seen [] = []"
| "dedupe seen (raw_url # rest) =
     (let url = clean_url raw_url in
      if url \<in> seen then dedupe seen rest else url # dedupe (insert url seen) rest)"

definition extract_resolution_urls :: "string \<Rightarrow> string \<Rightarrow> string \<Rightarrow> string list" where
  "extract_resolution_urls resolution_criteria fine_print description =
     (let txt = join [CHR 0x0A]
                  (filter (\<lambda>part. part \<noteq> []) [resolution_criteria, fine_print, description]);
          urls = findall match_markdown_link txt @ findall match_plain_url txt
      in dedupe {} urls)"


section \<open>models.py and config.py\<close>

text \<open>
  The three dataclasses share the field name \<open>url\<close>, and \<open>value\<close> is reserved: the fields
  of a signal carry the prefix \<open>sig_\<close> where needed and those of a result the prefix
  \<open>res_\<close>.
\<close>

record ScrapeRequest =
  question_id :: int
  question_title :: string
  question_type :: string
  scheduled_resolve_time :: pyval
  url :: string
  resolution_text :: string

record ResolutionSignal =
  sig_url :: string
  metric :: string
  sig_value :: pyval
  as_of_utc :: string
  parser :: string
  confidence :: string
  sig_note :: string
  raw :: "(string \<times> pyval) list option"

record ScrapeResult =
  res_url :: string
  ok :: bool
  signals :: "ResolutionSignal list"
  error :: "string option"

record ScraperConfig =
  request_timeout_s :: real
  max_retries :: int
  retry_backoff_s :: real
  user_agent :: string
  use_browser_fallback :: bool
  browser_timeout_s :: real
  per_run_cache_ttl_s :: int
  max_parallel_fetches :: int

definition default_config :: ScraperConfig where
  "default_config =
     \<lparr>request_timeout_s = 12, max_retries = 2, retry_backoff_s = 3 / 4,
      user_agent = ''Pirohuni-Forecast-Bot/1.0'', use_browser_fallback = False,
      browser_timeout_s = 20, per_run_cache_ttl_s = 3600, max_parallel_fetches = 4\<rparr>"

text \<open>The failure result that the adapters and the orchestrator build.\<close>

definition failure :: "string \<Rightarrow> string option \<Rightarrow> ScrapeResult" where
  "failure u e = \<lparr>res_url = u, ok = False, signals = [], error = e\<rparr>"

section \<open>The outside world\<close>

text \<open>
  Everything the scraper does to its environment goes through four operations on a world
  \<open>'w\<close>: reading the clock (\<open>time.time()\<close>), sleeping (\<open>asyncio.sleep\<close>), the timestamp of
  \<open>utc_now_iso\<close>, and one HTTP GET through \<open>httpx\<close>. A GET either raises or yields a
  response; \<open>status_error\<close> is the message with which \<open>raise_for_status\<close> raises (\<open>None\<close>: it
  returns), \<open>content_type\<close> the header of that name, \<open>json_body\<close> what \<open>response.json()\<close>
  returns or raises.
\<close>

record http_request =
  hr_url :: string
  hr_params :: "(string \<times> string) list"
  hr_headers :: "(string \<times> string) list"
  hr_timeout :: real

record http_response =
  status_error :: "string option"
  content_type :: "string option"
  body_text :: string
  json_body :: "exn + pyval"

record 'w runtime =
  time_now :: "'w \<Rightarrow> real"
  sleep :: "real \<Rightarrow> 'w \<Rightarrow> 'w"
  utc_now_iso :: "'w \<Rightarrow> string"
  http_get :: "http_request \<Rightarrow> 'w \<Rightarrow> (exn + http_response) \<times> 'w"

text \<open>\<open>client.get(...)\<close> followed by \<open>response.raise_for_status()\<close>.\<close>

definition get_checked :: "'w runtime \<Rightarrow> http_request \<Rightarrow> 'w \<Rightarrow> (exn + http_response) \<times> 'w" where
  "get_checked rt rq w =
     (case http_get rt rq w of
        (Inl e, w1) \<Rightarrow> (Inl e, w1)
      | (Inr response, w1) \<Rightarrow>
          (case status_error response of
             Some m \<Rightarrow> (Inl (HTTPError m), w1)
           | None \<Rightarrow> (Inr response, w1)))"

section \<open>adapters\<close>

text \<open>
  \<open>SourceAdapter\<close>: a name and the two operations. Both may raise; a fetch acts on the
  world.
\<close>

record 'w SourceAdapter =
  name :: string
  can_handle :: "ScrapeRequest \<Rightarrow> exn + bool"
  fetch :: "ScrapeRequest \<Rightarrow> 'w \<Rightarrow> (exn + ScrapeResult) \<times> 'w"

subsection \<open>wikipedia.py\<close>

text \<open>\<open>s.split(sep)[0]\<close> and \<open>s.split(".")[-1]\<close>.\<close>

fun before_first :: "string \<Rightarrow> string \<Rightarrow> string" where
  "before_first sep [] = []"
| "before_first sep (c # cs) = (if startswith (c # cs) sep then [] else c # before_first sep cs)"

definition after_last_dot :: "string \<Rightarrow> string" where
  "after_last_dot s = rev (takeWhile (\<lambda>c. c \<noteq> CHR ''.'') (rev s))"

definition wikipedia_can_handle :: "pylib \<Rightarrow> ScrapeRequest \<Rightarrow> exn + bool" where
  "wikipedia_can_handle py request =
     (case urlparse py (url request) of
        Inl e \<Rightarrow> Inl e
      | Inr parsed \<Rightarrow> Inr (str_in ''wikipedia.org'' (lower (netloc parsed))))"

definition wikipedia_signal :: "'w runtime \<Rightarrow> ScrapeRequest \<Rightarrow> string \<Rightarrow> pyval \<Rightarrow> int \<Rightarrow> 'w \<Rightarrow> ResolutionSignal" where
  "wikipedia_signal rt request lang stats articles w =
     \<lparr>sig_url = url request,
      metric = ''wikipedia_article_count_'' @ lang,
      sig_value = PInt articles,
      as_of_utc = utc_now_iso rt w,
      parser = ''wikipedia_api'',
      confidence =
        (if str_in ''article'' (lower (resolution_text request))
            \<and> str_in ''wikipedia'' (lower (resolution_text request))
         then ''high'' else ''medium''),
      sig_note = ''Retrieved from MediaWiki siteinfo.statistics.'',
      raw = Some [(''lang'', PStr lang), (''statistics'', stats)]\<rparr>"

text \<open>The part of \<open>fetch\<close> after the HTTP exchange: from the decoded payload to the result.\<close>

definition wikipedia_result :: "pylib \<Rightarrow> 'w runtime \<Rightarrow> ScrapeRequest \<Rightarrow> string \<Rightarrow> pyval \<Rightarrow> 'w \<Rightarrow> exn + ScrapeResult" where
  "wikipedia_result py rt request lang payload w =
     (case py_get payload ''query'' (PDict []) of
        Inl e \<Rightarrow> Inl e
      | Inr qry \<Rightarrow>
          (case py_get qry ''statistics'' (PDict []) of
             Inl e \<Rightarrow> Inl e
           | Inr stats \<Rightarrow>
               (case py_get stats ''articles'' PNone of
                  Inl e \<Rightarrow> Inl e
                | Inr articles \<Rightarrow>
                    if articles = PNone
                    then Inr (failure (url request)
                           (Some ''Could not find article statistics in MediaWiki response.''))
                    else (case py_int py articles of
                            Inl e \<Rightarrow> Inl e
                          | Inr n \<Rightarrow>
                              Inr \<lparr>res_url = url request, ok = True,
                                   signals = [wikipedia_signal rt request lang stats n w],
                                   error = None\<rparr>))))"

definition wikipedia_fetch :: "pylib \<Rightarrow> 'w runtime \<Rightarrow> ScraperConfig \<Rightarrow> ScrapeRequest \<Rightarrow> 'w \<Rightarrow> (exn + ScrapeResult) \<times> 'w" where
  "wikipedia_fetch py rt config request w =
     (case urlparse py (url request) of
        Inl e \<Rightarrow> (Inl e, w)
      | Inr parsed \<Rightarrow>
          (let host = lower (netloc parsed) in
           if \<not> str_in ''.wikipedia.org'' host
           then (Inr (failure (url request) (Some ''Unsupported Wikipedia host format.'')), w)
           else
             (let lang0 = after_last_dot (before_first ''.wikipedia.org'' host);
                  lang = (if lang0 = [] then ''en'' else lang0);
                  rq = \<lparr>hr_url = ''https://'' @ lang @ ''.wikipedia.org/w/api.php'',
                        hr_params = [(''action'', ''query''), (''meta'', ''siteinfo''),
                                     (''siprop'', ''statistics''), (''format'', ''json'')],
                        hr_headers = [(''User-Agent'', user_agent config)],
                        hr_timeout = request_timeout_s config\<rparr>
              in case get_checked rt rq w of
                   (Inl e, w1) \<Rightarrow> (Inl e, w1)
                 | (Inr response, w1) \<Rightarrow>
                     (case json_body response of
                        Inl e \<Rightarrow> (Inl e, w1)
                      | Inr payload \<Rightarrow> (wikipedia_result py rt request lang payload w1, w1)))))"

definition WikipediaAdapter :: "pylib \<Rightarrow> 'w runtime \<Rightarrow> ScraperConfig \<Rightarrow> 'w SourceAdapter" where
  "WikipediaAdapter py rt config =
     \<lparr>name = ''wikipedia_api'', can_handle = wikipedia_can_handle py,
      fetch = wikipedia_fetch py rt config\<rparr>"

subsection \<open>json_api.py\<close>

definition priority_keys :: "string list" where
  "priority_keys = [''value'', ''count'', ''total'', ''articles'', ''result'', ''latest'', ''data'']"

definition json_can_handle :: "pylib \<Rightarrow> ScrapeRequest \<Rightarrow> exn + bool" where
  "json_can_handle py request =
     (case urlparse py (url request) of
        Inl e \<Rightarrow> Inl e
      | Inr parsed \<Rightarrow>
          Inr (endswith (lower (path parsed)) ''.json''
               \<or> str_in ''api'' (lower (path parsed))
               \<or> str_in ''format=json'' (lower (query parsed))))"

definition max_nodes :: nat where
  "max_nodes = 2000"

definition is_bool :: "pyval \<Rightarrow> bool" where
  "is_bool v = (case v of PBool _ \<Rightarrow> True | _ \<Rightarrow> False)"

text \<open>\<open>isinstance(current, (int, float))\<close>; in Python a bool is an int as well.\<close>

definition is_int_or_float :: "pyval \<Rightarrow> bool" where
  "is_int_or_float v =
     (case v of PBool _ \<Rightarrow> True | PInt _ \<Rightarrow> True | PFloat _ \<Rightarrow> True | _ \<Rightarrow> False)"

text \<open>What one iteration appends to the queue for the node it took.\<close>

definition enqueued :: "string \<times> pyval \<Rightarrow> (string \<times> pyval) list" where
  "enqueued node =
     (case node of (pth, current) \<Rightarrow>
        (case current of
           PDict kvs \<Rightarrow>
             (let keys = map fst kvs;
                  ordered_keys = filter (\<lambda>k. k \<in> set keys) priority_keys
                                 @ filter (\<lambda>k. k \<notin> set priority_keys) keys
              in concat (map (\<lambda>key. case map_of kvs key of
                                        Some v \<Rightarrow> [(pth @ ''.'' @ key, v)]
                                      | None \<Rightarrow> []) ordered_keys))
         | PList items \<Rightarrow>
             map (\<lambda>(i, item). (pth @ ''['' @ show_nat i @ '']'', item))
               (enumerate 0 (take 20 items))
         | _ \<Rightarrow> []))"

text \<open>The \<open>while\<close> loop of \<open>_extract_numeric_value\<close>; it returns the counter \<open>visited\<close>
  beside the result.\<close>

function extract_loop :: "(string \<times> pyval) list \<Rightarrow> nat \<Rightarrow> (string \<times> pyval) option \<times> nat" where
  "extract_loop [] visited = (None, visited)"
| "extract_loop (node # queue) visited =
     (if \<not> visited < max_nodes then (None, visited)
      else if is_bool (snd node) then extract_loop queue (visited + 1)
      else if is_int_or_float (snd node) then (Some node, visited + 1)
      else extract_loop (queue @ enqueued node) (visited + 1))"
  by pat_completeness auto
termination
  by (relation "measure (\<lambda>(queue, visited). max_nodes - visited)") auto

declare extract_loop.simps [simp del]

definition extract_numeric_value :: "pyval \<Rightarrow> (string \<times> pyval) option" where
  "extract_numeric_value payload = fst (extract_loop [(''$'', payload)] 0)"

definition json_signal :: "'w runtime \<Rightarrow> ScrapeRequest \<Rightarrow> string \<Rightarrow> pyval \<Rightarrow> 'w \<Rightarrow> ResolutionSignal" where
  "json_signal rt request pth v w =
     \<lparr>sig_url = url request,
      metric = ''json_numeric_value'',
      sig_value = v,
      as_of_utc = utc_now_iso rt w,
      parser = ''json_api'',
      confidence = ''medium'',
      sig_note = ''Heuristic extraction path: '' @ pth,
      raw = Some [(''path'', PStr pth)]\<rparr>"

definition json_fetch :: "'w runtime \<Rightarrow> ScraperConfig \<Rightarrow> ScrapeRequest \<Rightarrow> 'w \<Rightarrow> (exn + ScrapeResult) \<times> 'w" where
  "json_fetch rt config request w =
     (let rq = \<lparr>hr_url = url request, hr_params = [],
                hr_headers = [(''User-Agent'', user_agent config),
                              (''Accept'', ''application/json, text/plain, */*'')],
                hr_timeout = request_timeout_s config\<rparr>
      in case get_checked rt rq w of
           (Inl e, w1) \<Rightarrow> (Inl e, w1)
         | (Inr response, w1) \<Rightarrow>
             (let ctype = lower (case content_type response of Some c \<Rightarrow> c | None \<Rightarrow> [])
              in if \<not> str_in ''json'' ctype \<and> \<not> endswith (lower (url request)) ''.json''
                 then (Inr (failure (url request)
                         (Some (''Expected JSON response, got content-type '' @ [CHR 0x27]
                                @ ctype @ [CHR 0x27] @ ''.''))), w1)
                 else (case json_body response of
                         Inl e \<Rightarrow> (Inl e, w1)
                       | Inr payload \<Rightarrow>
                           (case extract_numeric_value payload of
                              None \<Rightarrow>
                                (Inr (failure (url request)
                                   (Some ''No numeric value found in JSON payload.'')), w1)
                            | Some (pth, v) \<Rightarrow>
                                (Inr \<lparr>res_url = url request, ok = True,
                                      signals = [json_signal rt request pth v w1],
                                      error = None\<rparr>, w1)))))"

definition JsonApiAdapter :: "pylib \<Rightarrow> 'w runtime \<Rightarrow> ScraperConfig \<Rightarrow> 'w SourceAdapter" where
  "JsonApiAdapter py rt config =
     \<lparr>name = ''json_api'', can_handle = json_can_handle py, fetch = json_fetch rt config\<rparr>"

subsection \<open>csv_file.py\<close>

definition numeric_priority :: "string list" where
  "numeric_priority = [''count'', ''total'', ''value'', ''articles'', ''cases'']"

definition csv_can_handle :: "pylib \<Rightarrow> ScrapeRequest \<Rightarrow> exn + bool" where
  "csv_can_handle py request =
     (case urlparse py (url request) of
        Inl e \<Rightarrow> Inl e
      | Inr parsed \<Rightarrow> Inr (endswith (lower (path parsed)) ''.csv''))"

text \<open>\<open>value.is_integer()\<close> on a float.\<close>

definition is_integer :: "real \<Rightarrow> bool" where
  "is_integer v = (v = of_int \<lfloor>v\<rfloor>)"

definition parse_number :: "pylib \<Rightarrow> string option \<Rightarrow> pyval option" where
  "parse_number py txt =
     (case txt of
        None \<Rightarrow> None
      | Some t \<Rightarrow>
          (let cleaned = filter (\<lambda>c. c \<noteq> CHR '','') (strip t) in
           if cleaned = [] then None
           else (case lib_float py cleaned of
                   None \<Rightarrow> None
                 | Some v \<Rightarrow> Some (if is_integer v then PInt \<lfloor>v\<rfloor> else PFloat v))))"

text \<open>\<open>row.get(key)\<close>.\<close>

definition row_get :: "csv_row \<Rightarrow> string \<Rightarrow> string option" where
  "row_get row key = (case map_of row key of Some cell \<Rightarrow> cell | None \<Rightarrow> None)"

text \<open>The \<open>for key in ordered\<close> loop.\<close>

fun first_numeric :: "pylib \<Rightarrow> csv_row \<Rightarrow> string list \<Rightarrow> (string \<times> pyval) option" where
  "first_numeric py row [] = None"
| "first_numeric py row (key # rest) =
     (case parse_number py (row_get row key) of
        Some v \<Rightarrow> Some (key, v)
      | None \<Rightarrow> first_numeric py row rest)"

definition select_numeric_column :: "pylib \<Rightarrow> csv_row \<Rightarrow> (string \<times> pyval) option" where
  "select_numeric_column py row =
     (let keys = map fst row;
          ordered = filter (\<lambda>k. list_ex (\<lambda>p. str_in p (lower k)) numeric_priority) keys;
          ordered2 = ordered @ filter (\<lambda>k. k \<notin> set ordered) keys
      in first_numeric py row ordered2)"

definition csv_signal :: "'w runtime \<Rightarrow> ScrapeRequest \<Rightarrow> csv_row list \<Rightarrow> string \<Rightarrow> pyval \<Rightarrow> 'w \<Rightarrow> ResolutionSignal" where
  "csv_signal rt request rows column v w =
     \<lparr>sig_url = url request,
      metric = ''csv_'' @ column,
      sig_value = v,
      as_of_utc = utc_now_iso rt w,
      parser = ''csv'',
      confidence = ''medium'',
      sig_note = ''Using last CSV row with heuristic numeric column selection.'',
      raw = Some [(''row_index'', PInt (int (length rows) - 1)), (''column'', PStr column)]\<rparr>"

text \<open>The part of \<open>fetch\<close> after the HTTP exchange and the parse of the table.\<close>

definition csv_result :: "pylib \<Rightarrow> 'w runtime \<Rightarrow> ScrapeRequest \<Rightarrow> csv_row list \<Rightarrow> 'w \<Rightarrow> ScrapeResult" where
  "csv_result py rt request rows w =
     (if rows = [] then failure (url request) (Some ''CSV has no data rows.'')
      else (case select_numeric_column py (last rows) of
              None \<Rightarrow> failure (url request) (Some ''No numeric column found in final CSV row.'')
            | Some (column, v) \<Rightarrow>
                \<lparr>res_url = url request, ok = True,
                 signals = [csv_signal rt request rows column v w], error = None\<rparr>))"

definition csv_fetch :: "pylib \<Rightarrow> 'w runtime \<Rightarrow> ScraperConfig \<Rightarrow> ScrapeRequest \<Rightarrow> 'w \<Rightarrow> (exn + ScrapeResult) \<times> 'w" where
  "csv_fetch py rt config request w =
     (let rq = \<lparr>hr_url = url request, hr_params = [],
                hr_headers = [(''User-Agent'', user_agent config)],
                hr_timeout = request_timeout_s config\<rparr>
      in case get_checked rt rq w of
           (Inl e, w1) \<Rightarrow> (Inl e, w1)
         | (Inr response, w1) \<Rightarrow>
             (case lib_dictreader py (body_text response) of
                Inl e \<Rightarrow> (Inl e, w1)
              | Inr rows \<Rightarrow> (Inr (csv_result py rt request rows w1), w1)))"

definition CsvAdapter :: "pylib \<Rightarrow> 'w runtime \<Rightarrow> ScraperConfig \<Rightarrow> 'w SourceAdapter" where
  "CsvAdapter py rt config =
     \<lparr>name = ''csv'', can_handle = csv_can_handle py, fetch = csv_fetch py rt config\<rparr>"

subsection \<open>html_static.py\<close>

text \<open>
  The static adapter calls two libraries whose bodies are outside this repository. They
  are parameters of the model:
  \<^item> \<open>lib_soup\<close>: \<open>None\<close> when \<open>bs4\<close> cannot be imported (\<open>BeautifulSoup is None\<close>); otherwise
    the function that takes a document to what \<open>BeautifulSoup(html, "lxml")\<close> raises, or to
    the soup's \<open>stripped_strings\<close> and the text \<open>soup.title.get_text(strip=True)\<close> of its
    title (\<open>None\<close> when the soup has no title);
  \<^item> \<open>lib_re_sub\<close>: \<open>re.sub(pattern, repl, string)\<close>;
  \<^item> \<open>lib_re_search\<close>: \<open>re.compile(pattern, flags).search(string)\<close>, the flags being
    \<open>re.IGNORECASE\<close> or none; a match is the function that takes \<open>i\<close> to \<open>match.group(i)\<close>.

  The patterns are those of the code; \<open>CHR 0x5C\<close> is the backslash.
\<close>

record htmllib =
  lib_soup :: "(string \<Rightarrow> exn + string list \<times> string option) option"
  lib_re_sub :: "string \<Rightarrow> string \<Rightarrow> string \<Rightarrow> string"
  lib_re_search :: "string \<Rightarrow> bool \<Rightarrow> string \<Rightarrow> (nat \<Rightarrow> string) option"

definition KEYWORD_NUMBER_RE :: string where
  "KEYWORD_NUMBER_RE =
     ''(articles?|count|total|value|population|cases)'' @ [CHR 0x5C] @ ''D{0,30}(-?''
     @ [CHR 0x5C] @ ''d['' @ [CHR 0x5C] @ ''d,]*(?:'' @ [CHR 0x5C] @ ''.'' @ [CHR 0x5C]
     @ ''d+)?)''"

definition GENERIC_NUMBER_RE :: string where
  "GENERIC_NUMBER_RE =
     ''-?'' @ [CHR 0x5C] @ ''d['' @ [CHR 0x5C] @ ''d,]*(?:'' @ [CHR 0x5C] @ ''.''
     @ [CHR 0x5C] @ ''d+)?''"

definition coerce_number :: "pylib \<Rightarrow> string \<Rightarrow> pyval option" where
  "coerce_number py number_text =
     (let cleaned = strip (filter (\<lambda>c. c \<noteq> CHR '','') number_text) in
      if cleaned = [] then None
      else (case lib_float py cleaned of
              None \<Rightarrow> None
            | Some v \<Rightarrow> Some (if is_integer v then PInt \<lfloor>v\<rfloor> else PFloat v)))"

definition extract_number_from_html_text :: "pylib \<Rightarrow> htmllib \<Rightarrow> string \<Rightarrow> pyval option \<times> string" where
  "extract_number_from_html_text py hl txt =
     (case (case lib_re_search hl KEYWORD_NUMBER_RE True txt of
              None \<Rightarrow> None
            | Some keyword_match \<Rightarrow> coerce_number py (keyword_match 2)) of
        Some v \<Rightarrow> (Some v, ''keyword_number_regex'')
      | None \<Rightarrow>
          (case (case lib_re_search hl GENERIC_NUMBER_RE False txt of
                   None \<Rightarrow> None
                 | Some generic_match \<Rightarrow> coerce_number py (generic_match 0)) of
             Some v \<Rightarrow> (Some v, ''generic_number_regex'')
           | None \<Rightarrow> (None, ''none'')))"

definition html_signal :: "'w runtime \<Rightarrow> ScrapeRequest \<Rightarrow> pyval \<Rightarrow> string \<Rightarrow> string \<Rightarrow> 'w \<Rightarrow> ResolutionSignal" where
  "html_signal rt request v extraction_method title w =
     \<lparr>sig_url = url request,
      metric = ''html_detected_value'',
      sig_value = v,
      as_of_utc = utc_now_iso rt w,
      parser = ''html_static'',
      confidence = ''low'',
      sig_note = ''Extraction method: '' @ extraction_method @ ''. Title: '' @ take 120 title,
      raw = Some [(''title'', PStr (take 240 title))]\<rparr>"

text \<open>The text and the title of the page: through the soup, or with the tags cut out.\<close>

definition page_text :: "htmllib \<Rightarrow> string \<Rightarrow> exn + string \<times> string" where
  "page_text hl html =
     (case lib_soup hl of
        Some soup \<Rightarrow>
          (case soup html of
             Inl e \<Rightarrow> Inl e
           | Inr (stripped_strings, title) \<Rightarrow>
               Inr (join '' '' stripped_strings, case title of Some t \<Rightarrow> t | None \<Rightarrow> []))
      | None \<Rightarrow> Inr (lib_re_sub hl ''<[^>]+>'' '' '' html, []))"

text \<open>The part of \<open>fetch\<close> after the HTTP exchange.\<close>

definition html_result :: "pylib \<Rightarrow> htmllib \<Rightarrow> 'w runtime \<Rightarrow> ScrapeRequest \<Rightarrow> string \<Rightarrow> 'w \<Rightarrow> exn + ScrapeResult" where
  "html_result py hl rt request html w =
     (let lowered = lower html in
      if str_in ''__next_data__'' lowered \<or> str_in ''enable javascript'' lowered
      then Inr (failure (url request)
             (Some ''Likely JS-rendered page; static HTML insufficient.''))
      else
        (case page_text hl html of
           Inl e \<Rightarrow> Inl e
         | Inr (text0, title) \<Rightarrow>
             (let txt = strip (lib_re_sub hl ([CHR 0x5C] @ ''s+'') '' '' text0) in
              if length txt < 20
              then Inr (failure (url request)
                     (Some ''Insufficient page text for static parsing.''))
              else
                (case extract_number_from_html_text py hl txt of
                   (None, extraction_method) \<Rightarrow>
                     Inr (failure (url request)
                       (Some ''No parseable number found in static HTML text.''))
                 | (Some v, extraction_method) \<Rightarrow>
                     Inr \<lparr>res_url = url request, ok = True,
                          signals = [html_signal rt request v extraction_method title w],
                          error = None\<rparr>))))"

definition html_fetch :: "pylib \<Rightarrow> htmllib \<Rightarrow> 'w runtime \<Rightarrow> ScraperConfig \<Rightarrow> ScrapeRequest \<Rightarrow> 'w \<Rightarrow> (exn + ScrapeResult) \<times> 'w" where
  "html_fetch py hl rt config request w =
     (let rq = \<lparr>hr_url = url request, hr_params = [],
                hr_headers = [(''User-Agent'', user_agent config)],
                hr_timeout = request_timeout_s config\<rparr>
      in case get_checked rt rq w of
           (Inl e, w1) \<Rightarrow> (Inl e, w1)
         | (Inr response, w1) \<Rightarrow>
             (html_result py hl rt request (body_text response) w1, w1))"

definition StaticHtmlAdapter :: "pylib \<Rightarrow> htmllib \<Rightarrow> 'w runtime \<Rightarrow> ScraperConfig \<Rightarrow> 'w SourceAdapter" where
  "StaticHtmlAdapter py hl rt config =
     \<lparr>name = ''html_static'', can_handle = (\<lambda>request. Inr True),
      fetch = html_fetch py hl rt config\<rparr>"

section \<open>orchestrator.py\<close>

text \<open>
  The scraper's mutable state is the cache; \<open>world\<close> is the environment it acts on, and
  \<open>trace\<close> logs every fetch attempt (adapter name, URL, what the attempt returned or
  raised) and every sleep (its delay), in the order the orchestrator issued them. The
  per-URL flows of one batch are run one after the other in the order of the requests.
\<close>

datatype event =
    EvFetch string string "exn + ScrapeResult"
  | EvSleep real

record 'w scraper =
  world :: 'w
  cache :: "string \<rightharpoonup> real \<times> ScrapeResult"
  trace :: "event list"

text \<open>
  How a coroutine ends: it returns, it raises, or it never gets past the semaphore. The
  semaphore is created with the value \<open>max_parallel_fetches\<close> (asyncio refuses a negative
  one); a flow that runs alone finds it at that value, and waits for ever when it is 0.
\<close>

datatype 'a outcome = Returns 'a | Raises exn | Blocks

text \<open>
  The browser adapter (\<open>browser_playwright.py\<close>) rests on a headless browser. The default
  chain takes the static and the browser adapter as parameters; the static adapter of the
  code is \<open>StaticHtmlAdapter\<close>.
\<close>

definition build_default_adapters :: "pylib \<Rightarrow> 'w runtime \<Rightarrow> ScraperConfig \<Rightarrow> 'w SourceAdapter \<Rightarrow> 'w SourceAdapter \<Rightarrow> 'w SourceAdapter list" where
  "build_default_adapters py rt config static_html browser =
     (let base_adapters = [WikipediaAdapter py rt config, JsonApiAdapter py rt config,
                           CsvAdapter py rt config, static_html]
      in if use_browser_fallback config then base_adapters @ [browser] else base_adapters)"

definition get_cached :: "'w runtime \<Rightarrow> string \<Rightarrow> 'w scraper \<Rightarrow> ScrapeResult option \<times> 'w scraper" where
  "get_cached rt u s =
     (case cache s u of
        None \<Rightarrow> (None, s)
      | Some (expires_at, result) \<Rightarrow>
          if time_now rt (world s) \<ge> expires_at
          then (None, s\<lparr>cache := (cache s)(u := None)\<rparr>)
          else (Some result, s))"

definition set_cached :: "'w runtime \<Rightarrow> ScraperConfig \<Rightarrow> string \<Rightarrow> ScrapeResult \<Rightarrow> 'w scraper \<Rightarrow> 'w scraper" where
  "set_cached rt config u result s =
     (let expires_at = time_now rt (world s) + real_of_int (per_run_cache_ttl_s config)
      in s\<lparr>cache := (cache s)(u \<mapsto> (expires_at, result))\<rparr>)"

definition question_id_of :: "pylib \<Rightarrow> (string \<rightharpoonup> pyval) \<Rightarrow> int" where
  "question_id_of py question_details =
     (case question_details ''id'' of
        None \<Rightarrow> - 1
      | Some qid \<Rightarrow>
          if qid = PNone then - 1
          else (case py_int py qid of Inr i \<Rightarrow> i | Inl e \<Rightarrow> - 1))"

text \<open>\<open>str(question_details.get(key, ""))\<close>.\<close>

definition get_str :: "pylib \<Rightarrow> (string \<rightharpoonup> pyval) \<Rightarrow> string \<Rightarrow> string" where
  "get_str py question_details key =
     py_str py (case question_details key of Some v \<Rightarrow> v | None \<Rightarrow> PStr [])"

definition build_request :: "pylib \<Rightarrow> (string \<rightharpoonup> pyval) \<Rightarrow> string \<Rightarrow> ScrapeRequest" where
  "build_request py question_details u =
     \<lparr>question_id = question_id_of py question_details,
      question_title = get_str py question_details ''title'',
      question_type = get_str py question_details ''type'',
      scheduled_resolve_time =
        (case question_details ''scheduled_resolve_time'' of Some v \<Rightarrow> v | None \<Rightarrow> PNone),
      url = u,
      resolution_text =
        join [CHR 0x0A]
          [get_str py question_details ''resolution_criteria'',
           get_str py question_details ''fine_print'',
           get_str py question_details ''description'']\<rparr>"

text \<open>
  The \<open>for attempt in range(total_attempts)\<close> loop of \<open>_fetch_with_retries\<close>, entered at
  \<open>attempt\<close> with the error text retained so far.
\<close>

definition truthy :: "string option \<Rightarrow> bool" where
  "truthy e = (case e of None \<Rightarrow> False | Some t \<Rightarrow> t \<noteq> [])"

text \<open>\<open>if result.error: last_error = result.error\<close>.\<close>

definition retained_error :: "ScrapeResult \<Rightarrow> string \<Rightarrow> string" where
  "retained_error result last_error =
     (case error result of
        None \<Rightarrow> last_error
      | Some t \<Rightarrow> if t \<noteq> [] then t else last_error)"

text \<open>\<open>if attempt < total_attempts - 1: await asyncio.sleep(retry_backoff_s * 2 ** attempt)\<close>.\<close>

definition backoff :: "'w runtime \<Rightarrow> ScraperConfig \<Rightarrow> nat \<Rightarrow> nat \<Rightarrow> 'w scraper \<Rightarrow> 'w scraper" where
  "backoff rt config total_attempts attempt s =
     (if int attempt < int total_attempts - 1
      then s\<lparr>world := sleep rt (retry_backoff_s config * 2 ^ attempt) (world s),
             trace := trace s @ [EvSleep (retry_backoff_s config * 2 ^ attempt)]\<rparr>
      else s)"

text \<open>One \<open>await adapter.fetch(request)\<close>, logged.\<close>

definition attempt_fetch :: "'w SourceAdapter \<Rightarrow> ScrapeRequest \<Rightarrow> 'w scraper \<Rightarrow> (exn + ScrapeResult) \<times> 'w scraper" where
  "attempt_fetch adapter request s =
     (case fetch adapter request (world s) of
        (attempted, w1) \<Rightarrow>
          (attempted,
           s\<lparr>world := w1,
             trace := trace s @ [EvFetch (name adapter) (url request) attempted]\<rparr>))"

function retry_loop :: "'w runtime \<Rightarrow> ScraperConfig \<Rightarrow> 'w SourceAdapter \<Rightarrow> ScrapeRequest \<Rightarrow> nat \<Rightarrow> nat \<Rightarrow> string \<Rightarrow> 'w scraper \<Rightarrow> ScrapeResult \<times> 'w scraper" where
  "retry_loop rt config adapter request total_attempts attempt last_error s =
     (if \<not> attempt < total_attempts
      then (failure (url request) (Some (name adapter @ '': '' @ last_error)), s)
      else
        (case attempt_fetch adapter request s of
           (Inr result, s1) \<Rightarrow>
             if ok result then (result, s1)
             else retry_loop rt config adapter request total_attempts (attempt + 1)
                    (retained_error result last_error)
                    (backoff rt config total_attempts attempt s1)
         | (Inl exc, s1) \<Rightarrow>
             retry_loop rt config adapter request total_attempts (attempt + 1)
               (exn_str exc)
               (backoff rt config total_attempts attempt s1)))"
  by pat_completeness auto
termination
  by (relation "measure (\<lambda>(rt, config, adapter, request, total_attempts, attempt, last_error, s).
                          total_attempts - attempt)") auto

declare retry_loop.simps [simp del]

definition fetch_with_retries :: "'w runtime \<Rightarrow> ScraperConfig \<Rightarrow> 'w SourceAdapter \<Rightarrow> ScrapeRequest \<Rightarrow> 'w scraper \<Rightarrow> ScrapeResult \<times> 'w scraper" where
  "fetch_with_retries rt config adapter request s =
     (let total_attempts = nat (max 1 (max_retries config + 1));
          last_error = ''Unknown fetch error.''
      in retry_loop rt config adapter request total_attempts 0 last_error s)"

text \<open>The \<open>for adapter in self.adapters\<close> loop of \<open>scrape_url\<close>.\<close>

datatype walk_end = Accepted ScrapeResult | Raised exn | Exhausted "string option"

fun adapter_walk :: "'w runtime \<Rightarrow> ScraperConfig \<Rightarrow> 'w SourceAdapter list \<Rightarrow> ScrapeRequest \<Rightarrow> string option \<Rightarrow> 'w scraper \<Rightarrow> walk_end \<times> 'w scraper" where
  "adapter_walk rt config [] request fallback_error s = (Exhausted fallback_error, s)"
| "adapter_walk rt config (adapter # rest) request fallback_error s =
     (case can_handle adapter request of
        Inl exc \<Rightarrow> (Raised exc, s)
      | Inr handles \<Rightarrow>
          if \<not> handles then adapter_walk rt config rest request fallback_error s
          else
            (let (result, s1) = fetch_with_retries rt config adapter request s in
             if ok result \<and> signals result \<noteq> []
             then (Accepted result, set_cached rt config (url request) result s1)
             else adapter_walk rt config rest request
                    (if truthy (error result) then error result else fallback_error) s1))"

definition scrape_url :: "'w runtime \<Rightarrow> ScraperConfig \<Rightarrow> 'w SourceAdapter list \<Rightarrow> ScrapeRequest \<Rightarrow> 'w scraper \<Rightarrow> ScrapeResult outcome \<times> 'w scraper" where
  "scrape_url rt config adapters request s =
     (case get_cached rt (url request) s of
        (Some cached, s1) \<Rightarrow> (Returns cached, s1)
      | (None, s1) \<Rightarrow>
          if max_parallel_fetches config \<le> 0 then (Blocks, s1)
          else (case adapter_walk rt config adapters request
                       (Some ''No adapter accepted this URL.'') s1 of
                  (Accepted result, s2) \<Rightarrow> (Returns result, s2)
                | (Raised exc, s2) \<Rightarrow> (Raises exc, s2)
                | (Exhausted fallback_error, s2) \<Rightarrow>
                    (let failed = failure (url request) fallback_error
                     in (Returns failed, set_cached rt config (url request) failed s2))))"

text \<open>\<open>asyncio.gather\<close> over the per-URL flows: the results in the order of the requests, or
  the first exception.\<close>

fun gather :: "'w runtime \<Rightarrow> ScraperConfig \<Rightarrow> 'w SourceAdapter list \<Rightarrow> ScrapeRequest list \<Rightarrow> 'w scraper \<Rightarrow> ScrapeResult list outcome \<times> 'w scraper" where
  "gather rt config adapters [] s = (Returns [], s)"
| "gather rt config adapters (req # reqs) s =
     (case scrape_url rt config adapters req s of
        (Returns r, s1) \<Rightarrow>
          (case gather rt config adapters reqs s1 of
             (Returns rs, s2) \<Rightarrow> (Returns (r # rs), s2)
           | other \<Rightarrow> other)
      | (Raises exc, s1) \<Rightarrow> (Raises exc, s1)
      | (Blocks, s1) \<Rightarrow> (Blocks, s1))"

definition scrape_question_sources :: "pylib \<Rightarrow> 'w runtime \<Rightarrow> ScraperConfig \<Rightarrow> 'w SourceAdapter list \<Rightarrow> (string \<rightharpoonup> pyval) \<Rightarrow> 'w scraper \<Rightarrow> ScrapeResult list outcome \<times> 'w scraper" where
  "scrape_question_sources py rt config adapters question_details s =
     (let urls = extract_resolution_urls
                   (get_str py question_details ''resolution_criteria'')
                   (get_str py question_details ''fine_print'')
                   (get_str py question_details ''description'')
      in if urls = [] then (Returns [], s)
         else gather rt config adapters (map (build_request py question_details) urls) s)"

definition flatten_signals :: "ScrapeResult list \<Rightarrow> ResolutionSignal list" where
  "flatten_signals results = concat (map signals results)"

section \<open>formatters.py\<close>







section \<open>Notions of the specification\<close>

text \<open>
  What the specification says about the retry loop, in terms of the outcomes of the
  attempts: an attempt fails when it raises or returns a result that is not a success; its
  error text is the text of the exception, or the error of the result when that is not
  empty; the most recent error text is the last one among the attempts, or the default
  when no attempt has one. \<open>retry_events\<close> is the log of attempts number \<open>i\<close>, \<open>i + 1\<close>, ...
  with a sleep of \<open>b * 2 ^ j\<close> after attempt \<open>j\<close> whenever another attempt follows.
\<close>

definition failed_attempt :: "exn + ScrapeResult \<Rightarrow> bool" where
  "failed_attempt x = (case x of Inl exc \<Rightarrow> True | Inr result \<Rightarrow> \<not> ok result)"

definition error_text :: "exn + ScrapeResult \<Rightarrow> string option" where
  "error_text x =
     (case x of
        Inl exc \<Rightarrow> Some (exn_str exc)
      | Inr result \<Rightarrow> if truthy (error result) then error result else None)"

definition most_recent_error :: "string \<Rightarrow> (exn + ScrapeResult) list \<Rightarrow> string" where
  "most_recent_error dflt outs = last (dflt # List.map_filter error_text outs)"

fun retry_events :: "string \<Rightarrow> string \<Rightarrow> real \<Rightarrow> nat \<Rightarrow> (exn + ScrapeResult) list \<Rightarrow> event list" where
  "retry_events nm u b i [] = []"
| "retry_events nm u b i [x] = [EvFetch nm u x]"
| "retry_events nm u b i (x # y # outs) =
     EvFetch nm u x # EvSleep (b * 2 ^ i) # retry_events nm u b (i + 1) (y # outs)"

text \<open>
  The walk over the chain: an adapter is capable when \<open>can_handle\<close> returns true, a result
  is accepted when it is a success that carries a signal, and \<open>run_all\<close> runs the retry
  loops of a list of adapters one after the other. The last meaningful error of a list of
  results is the last error among them that is not empty, or the default.
\<close>

definition capable :: "ScrapeRequest \<Rightarrow> 'w SourceAdapter \<Rightarrow> bool" where
  "capable request adapter = (can_handle adapter request = Inr True)"

definition accepted :: "ScrapeResult \<Rightarrow> bool" where
  "accepted result = (ok result \<and> signals result \<noteq> [])"

fun run_all :: "'w runtime \<Rightarrow> ScraperConfig \<Rightarrow> ScrapeRequest \<Rightarrow> 'w scraper \<Rightarrow> 'w SourceAdapter list \<Rightarrow> ScrapeResult list \<times> 'w scraper" where
  "run_all rt config request s [] = ([], s)"
| "run_all rt config request s (adapter # rest) =
     (case fetch_with_retries rt config adapter request s of
        (result, s1) \<Rightarrow>
          (case run_all rt config request s1 rest of
             (results, s2) \<Rightarrow> (result # results, s2)))"

definition last_meaningful_error :: "string option \<Rightarrow> ScrapeResult list \<Rightarrow> string option" where
  "last_meaningful_error dflt results = last (dflt # filter truthy (map error results))"

text \<open>
  The attempts replayed on the world: \<open>attempt_outcomes\<close> is what \<open>k\<close> consecutive attempts,
  the first of them attempt number \<open>i\<close>, return or raise when the first fetch runs in the
  world \<open>w\<close>, every later fetch runs in the world its predecessor left after a sleep of
  \<open>b * 2 ^ j\<close> (\<open>j\<close> the number of the predecessor), and \<open>attempts_world\<close> is the world that
  the last of these fetches leaves: there is no sleep after the last attempt.
\<close>

fun attempt_outcomes :: "'w runtime \<Rightarrow> 'w SourceAdapter \<Rightarrow> ScrapeRequest \<Rightarrow> real \<Rightarrow> nat \<Rightarrow> nat \<Rightarrow> 'w \<Rightarrow> (exn + ScrapeResult) list" where
  "attempt_outcomes rt adapter request b i 0 w = []"
| "attempt_outcomes rt adapter request b i (Suc k) w =
     fst (fetch adapter request w)
       # attempt_outcomes rt adapter request b (Suc i) k
           (sleep rt (b * 2 ^ i) (snd (fetch adapter request w)))"

fun attempts_world :: "'w runtime \<Rightarrow> 'w SourceAdapter \<Rightarrow> ScrapeRequest \<Rightarrow> real \<Rightarrow> nat \<Rightarrow> nat \<Rightarrow> 'w \<Rightarrow> 'w" where
  "attempts_world rt adapter request b i 0 w = w"
| "attempts_world rt adapter request b i (Suc k) w =
     (if k = 0 then snd (fetch adapter request w)
      else attempts_world rt adapter request b (Suc i) k
             (sleep rt (b * 2 ^ i) (snd (fetch adapter request w))))"

text \<open>
  What a run of the retry loop that is entered at attempt \<open>i\<close> with the retained error
  \<open>dflt\<close> does, in terms of the outcomes \<open>outs\<close> of its attempts: it makes at least one
  attempt and none beyond attempt number \<open>total_attempts - 1\<close>; the outcomes are those of
  the attempts replayed on the world, and the loop leaves the world that the replay
  leaves; it logs the attempts and the sleeps between them and changes nothing else of
  the state, so it leaves the cache alone; every attempt but the last one
  failed; when the last one failed as well, the budget is used up and the loop returns the
  failure that carries the adapter's name and the most recent error text, and otherwise it
  returns the result of the last attempt.
\<close>

definition retry_post :: "'w runtime \<Rightarrow> 'w SourceAdapter \<Rightarrow> ScrapeRequest \<Rightarrow> real \<Rightarrow> nat \<Rightarrow> nat \<Rightarrow> string \<Rightarrow> 'w scraper \<Rightarrow> ScrapeResult \<Rightarrow> 'w scraper \<Rightarrow> (exn + ScrapeResult) list \<Rightarrow> bool" where
  "retry_post rt adapter request b total_attempts i dflt s r s' outs =
     (outs \<noteq> [] \<and> i + length outs \<le> total_attempts
      \<and> outs = attempt_outcomes rt adapter request b i (length outs) (world s)
      \<and> s' = s\<lparr>world := attempts_world rt adapter request b i (length outs) (world s),
                trace := trace s @ retry_events (name adapter) (url request) b i outs\<rparr>
      \<and> trace s' = trace s @ retry_events (name adapter) (url request) b i outs
      \<and> cache s' = cache s
      \<and> list_all failed_attempt (butlast outs)
      \<and> list_all (\<lambda>x. \<exists>w. x = fst (fetch adapter request w)) outs
      \<and> (if failed_attempt (last outs)
         then i + length outs = total_attempts
              \<and> r = failure (url request)
                    (Some (name adapter @ '': '' @ most_recent_error dflt outs))
         else last outs = Inr r))"

text \<open>
  What the walk over a chain does when no \<open>can_handle\<close> raises: it runs the retry loops of
  the first \<open>n\<close> capable adapters of the chain, in the order of the chain; none of their
  results but the last is accepted; either the last result is accepted, and the walk
  caches and returns it, or the walk has run every capable adapter without an accepted
  result and ends with the last meaningful error.
\<close>

definition walk_post :: "'w runtime \<Rightarrow> ScraperConfig \<Rightarrow> 'w SourceAdapter list \<Rightarrow> ScrapeRequest \<Rightarrow> string option \<Rightarrow> 'w scraper \<Rightarrow> walk_end \<times> 'w scraper \<Rightarrow> bool" where
  "walk_post rt config adapters request dflt s out =
     (\<exists>n rs s1.
        n \<le> length (filter (capable request) adapters)
      \<and> run_all rt config request s (take n (filter (capable request) adapters)) = (rs, s1)
      \<and> list_all (\<lambda>r. \<not> accepted r) (butlast rs)
      \<and> ((rs \<noteq> [] \<and> accepted (last rs)
           \<and> out = (Accepted (last rs), set_cached rt config (url request) (last rs) s1))
         \<or> (n = length (filter (capable request) adapters)
             \<and> list_all (\<lambda>r. \<not> accepted r) rs
             \<and> out = (Exhausted (last_meaningful_error dflt rs), s1))))"


text \<open>
  The breadth-first order of the specification for the JSON walk: the nodes of one level,
  then the nodes that they enqueue, level by level. \<open>height\<close> bounds the depth of a
  payload, so that the levels come to an end; a numeric leaf is an int or a float that is
  not a bool.
\<close>

fun height :: "pyval \<Rightarrow> nat" where
  "height (PList items) = Suc (fold max (map height items) 0)"
| "height (PDict kvs) = Suc (fold max (map (\<lambda>kv. height (snd kv)) kvs) 0)"
| "height v = 1"

fun max_height :: "(string \<times> pyval) list \<Rightarrow> nat" where
  "max_height [] = 0"
| "max_height (node # nodes) = max (height (snd node)) (max_height nodes)"

definition numeric_leaf :: "pyval \<Rightarrow> bool" where
  "numeric_leaf v = (is_int_or_float v \<and> \<not> is_bool v)"

function level_order :: "(string \<times> pyval) list \<Rightarrow> (string \<times> pyval) list" where
  "level_order nodes =
     (if nodes = [] then [] else nodes @ level_order (concat (map enqueued nodes)))"
  by pat_completeness auto
termination
proof (relation "measure max_height")
  show "wf (measure max_height)"
    by simp
next
  fix nodes :: "(string \<times> pyval) list"
  assume ne: "nodes \<noteq> []"
  have fold_le: "x \<in> set xs \<Longrightarrow> x \<le> fold max xs a" for x :: nat and xs a
  proof (induction xs arbitrary: a)
    case Nil
    then show ?case by simp
  next
    case (Cons y ys)
    have mono: "a \<le> fold max ys a" for a :: nat
      by (induction ys arbitrary: a) (auto intro: le_trans [OF max.cobounded2])
    show ?case
    proof (cases "x = y")
      case True
      then show ?thesis
        using mono [of "max y a"] by simp
    next
      case False
      with Cons show ?thesis by simp
    qed
  qed
  have child: "height (snd c) < height (snd n)" if "c \<in> set (enqueued n)" for c n
  proof (cases n)
    case (Pair pth current)
    show ?thesis
    proof (cases current)
      case (PList items)
      with that Pair have "snd c \<in> set items"
        by (auto simp: enqueued_def in_set_enumerate_eq dest: in_set_takeD)
      then have "height (snd c) \<le> fold max (map height items) 0"
        by (intro fold_le) simp
      with Pair PList show ?thesis by simp
    next
      case (PDict kvs)
      with that Pair obtain key where "map_of kvs key = Some (snd c)"
        by (auto simp: enqueued_def Let_def split: option.splits)
      then have "(key, snd c) \<in> set kvs"
        by (rule map_of_SomeD)
      then have "(\<lambda>kv. height (snd kv)) (key, snd c) \<in> (\<lambda>kv. height (snd kv)) ` set kvs"
        by (rule imageI)
      then have "height (snd c) \<in> set (map (\<lambda>kv. height (snd kv)) kvs)"
        by simp
      then have "height (snd c) \<le> fold max (map (\<lambda>kv. height (snd kv)) kvs) 0"
        by (rule fold_le)
      with Pair PDict show ?thesis by simp
    qed (use that Pair in \<open>simp_all add: enqueued_def\<close>)
  qed
  have pos: "0 < height v" for v
    by (cases v) simp_all
  have bound: "ns \<noteq> [] \<Longrightarrow> max_height (concat (map enqueued ns)) < max_height ns" for ns
  proof (induction ns)
    case Nil
    then show ?case by simp
  next
    case (Cons n ns)
    have app: "max_height (xs @ ys) = max (max_height xs) (max_height ys)" for xs ys
      by (induction xs) simp_all
    have kids: "max_height (enqueued n) < height (snd n)"
    proof -
      have "(\<forall>c \<in> set cs. height (snd c) < h) \<Longrightarrow> 0 < h \<Longrightarrow> max_height cs < h" for cs h
        by (induction cs) simp_all
      then show ?thesis
        using child pos by blast
    qed
    show ?case
    proof (cases "ns = []")
      case True
      with kids show ?thesis by simp
    next
      case False
      with Cons.IH kids show ?thesis
        by (simp add: app) linarith
    qed
  qed
  show "(concat (map enqueued nodes), nodes) \<in> measure max_height"
    using bound [OF ne] by simp
qed

declare level_order.simps [simp del]

text \<open>
  What a batch needs to go through: an adapter is well-behaved when the results of its
  fetch carry the URL of the request, and a cache is sound when every entry carries the
  URL of its key and is a success or has an error text.
\<close>

definition well_behaved :: "'w SourceAdapter \<Rightarrow> bool" where
  "well_behaved adapter =
     (\<forall>request w r. fst (fetch adapter request w) = Inr r \<longrightarrow> res_url r = url request)"

definition sound_cache :: "'w scraper \<Rightarrow> bool" where
  "sound_cache s =
     (\<forall>u deadline r. cache s u = Some (deadline, r)
        \<longrightarrow> res_url r = u \<and> (ok r \<or> truthy (error r)))"








section \<open>Concrete instances\<close>




























section \<open>The walk over the adapter chain\<close>

lemma last_meaningful_error_Cons:
  "last_meaningful_error dflt (r # rs)
     = last_meaningful_error (if truthy (error r) then error r else dflt) rs"
  by (simp add: last_meaningful_error_def)

lemma adapter_walk_spec:
  "list_all (\<lambda>a. \<exists>b. can_handle a request = Inr b) adapters \<Longrightarrow>
   walk_post rt config adapters request dflt s (adapter_walk rt config adapters request dflt s)"
proof (induction adapters arbitrary: dflt s)
  case Nil
  have "run_all rt config request s (take 0 []) = ([], s)" by simp
  then show ?case
    unfolding walk_post_def
    by (intro exI [of _ 0] exI [of _ "[]"] exI [of _ s]) (simp add: last_meaningful_error_def)
next
  case (Cons a rest)
  from Cons.prems obtain b where b: "can_handle a request = Inr b"
    and rest_ok: "list_all (\<lambda>a. \<exists>b. can_handle a request = Inr b) rest"
    by auto
  show ?case
  proof (cases b)
    case False
    then have "\<not> capable request a"
      using b by (simp add: capable_def)
    then have "filter (capable request) (a # rest) = filter (capable request) rest"
      by simp
    moreover have "adapter_walk rt config (a # rest) request dflt s
                     = adapter_walk rt config rest request dflt s"
      using b False by simp
    ultimately show ?thesis
      using Cons.IH [OF rest_ok, of dflt s] by (simp add: walk_post_def)
  next
    case True
    then have cap: "filter (capable request) (a # rest) = a # filter (capable request) rest"
      using b by (simp add: capable_def)
    obtain r s1 where run: "fetch_with_retries rt config a request s = (r, s1)"
      by (cases "fetch_with_retries rt config a request s")
    show ?thesis
    proof (cases "accepted r")
      case acc: True
      have walk: "adapter_walk rt config (a # rest) request dflt s
                    = (Accepted r, set_cached rt config (url request) r s1)"
        using b True run acc by (simp add: accepted_def)
      have "run_all rt config request s (take 1 (a # filter (capable request) rest)) = ([r], s1)"
        using run by simp
      then show ?thesis
        unfolding walk_post_def cap walk
        by (intro exI [of _ 1] exI [of _ "[r]"] exI [of _ s1]) (simp add: acc)
    next
      case nacc: False
      let ?d = "if truthy (error r) then error r else dflt"
      have walk: "adapter_walk rt config (a # rest) request dflt s
                    = adapter_walk rt config rest request ?d s1"
        using b True run nacc by (auto simp: accepted_def)
      from Cons.IH [OF rest_ok, of ?d s1] obtain n rs s2
        where n: "n \<le> length (filter (capable request) rest)"
          and ra: "run_all rt config request s1 (take n (filter (capable request) rest)) = (rs, s2)"
          and bl: "list_all (\<lambda>r. \<not> accepted r) (butlast rs)"
          and alt: "(rs \<noteq> [] \<and> accepted (last rs)
                     \<and> adapter_walk rt config rest request ?d s1
                         = (Accepted (last rs), set_cached rt config (url request) (last rs) s2))
                  \<or> (n = length (filter (capable request) rest)
                      \<and> list_all (\<lambda>r. \<not> accepted r) rs
                      \<and> adapter_walk rt config rest request ?d s1
                          = (Exhausted (last_meaningful_error ?d rs), s2))"
        unfolding walk_post_def by blast
      have ra': "run_all rt config request s (take (Suc n) (a # filter (capable request) rest))
                   = (r # rs, s2)"
        using run ra by simp
      have bl': "list_all (\<lambda>r. \<not> accepted r) (butlast (r # rs))"
        using bl nacc by simp
      have alt': "(r # rs \<noteq> [] \<and> accepted (last (r # rs))
                     \<and> adapter_walk rt config (a # rest) request dflt s
                         = (Accepted (last (r # rs)),
                            set_cached rt config (url request) (last (r # rs)) s2))
                  \<or> (Suc n = length (a # filter (capable request) rest)
                      \<and> list_all (\<lambda>r. \<not> accepted r) (r # rs)
                      \<and> adapter_walk rt config (a # rest) request dflt s
                          = (Exhausted (last_meaningful_error dflt (r # rs)), s2))"
        using alt nacc unfolding walk last_meaningful_error_Cons by auto
      show ?thesis
        unfolding walk_post_def cap
        using n ra' bl' alt'
        by (intro exI [of _ "Suc n"] exI [of _ "r # rs"] exI [of _ s2]) simp
    qed
  qed
qed


section \<open>The retry loop\<close>

lemma most_recent_error_Cons:
  "most_recent_error dflt (x # outs)
     = most_recent_error (case error_text x of Some t \<Rightarrow> t | None \<Rightarrow> dflt) outs"
  by (simp add: most_recent_error_def split: option.splits)

lemma error_text_Inl: "error_text (Inl exc) = Some (exn_str exc)"
  by (simp add: error_text_def)

lemma error_text_Inr:
  "(case error_text (Inr result) of Some t \<Rightarrow> t | None \<Rightarrow> dflt) = retained_error result dflt"
  by (auto simp: error_text_def retained_error_def truthy_def split: option.splits)

lemma retry_events_Cons:
  "outs \<noteq> [] \<Longrightarrow>
   retry_events nm u b i (x # outs) = EvFetch nm u x # EvSleep (b * 2 ^ i) # retry_events nm u b (Suc i) outs"
  by (cases outs) simp_all

lemma attempt_fetch_props:
  "attempt_fetch adapter request s = (x, s1) \<Longrightarrow>
     x = fst (fetch adapter request (world s))
   \<and> trace s1 = trace s @ [EvFetch (name adapter) (url request) x]
   \<and> cache s1 = cache s"
  by (auto simp: attempt_fetch_def split: prod.splits)

lemma attempt_fetch_state:
  "attempt_fetch adapter request s = (x, s1) \<Longrightarrow>
     s1 = s\<lparr>world := snd (fetch adapter request (world s)),
            trace := trace s @ [EvFetch (name adapter) (url request) x]\<rparr>"
  by (auto simp: attempt_fetch_def split: prod.splits)

lemma backoff_more:
  "Suc attempt < total_attempts \<Longrightarrow>
   trace (backoff rt config total_attempts attempt s) = trace s @ [EvSleep (retry_backoff_s config * 2 ^ attempt)]
   \<and> cache (backoff rt config total_attempts attempt s) = cache s"
  by (auto simp: backoff_def)

lemma backoff_state:
  "Suc attempt < total_attempts \<Longrightarrow>
   backoff rt config total_attempts attempt s
     = s\<lparr>world := sleep rt (retry_backoff_s config * 2 ^ attempt) (world s),
         trace := trace s @ [EvSleep (retry_backoff_s config * 2 ^ attempt)]\<rparr>"
  by (auto simp: backoff_def)

lemma backoff_last:
  "\<not> Suc attempt < total_attempts \<Longrightarrow> backoff rt config total_attempts attempt s = s"
  by (auto simp: backoff_def)

lemma retry_loop_done:
  "\<not> attempt < total_attempts \<Longrightarrow>
   retry_loop rt config adapter request total_attempts attempt last_error s
     = (failure (url request) (Some (name adapter @ '': '' @ last_error)), s)"
  by (simp add: retry_loop.simps)


lemma attempt_outcomes_from_fetch:
  "list_all (\<lambda>x. \<exists>w. x = fst (fetch adapter request w))
     (attempt_outcomes rt adapter request b i k w)"
  by (induction k arbitrary: i w) auto

lemma retry_post_one:
  assumes af: "attempt_fetch adapter request s = (x, s1)"
    and bound: "attempt < total_attempts"
    and fin: "if failed_attempt x
              then Suc attempt = total_attempts
                   \<and> r = failure (url request)
                         (Some (name adapter @ '': '' @ most_recent_error dflt [x]))
              else x = Inr r"
  shows "retry_post rt adapter request b total_attempts attempt dflt s r s1 [x]"
proof -
  note ap = attempt_fetch_props [OF af]
  note st = attempt_fetch_state [OF af]
  have "[x] = attempt_outcomes rt adapter request b attempt (length [x]) (world s)"
    using ap by simp
  moreover have "s1 = s\<lparr>world := attempts_world rt adapter request b attempt (length [x]) (world s),
                        trace := trace s @ retry_events (name adapter) (url request) b attempt [x]\<rparr>"
    using st by simp
  moreover have "list_all (\<lambda>x. \<exists>w. x = fst (fetch adapter request w)) [x]"
    using ap by auto
  moreover have "attempt + length [x] \<le> total_attempts"
    using bound by simp
  moreover have "trace s1 = trace s @ retry_events (name adapter) (url request) b attempt [x]"
    using ap by simp
  moreover have "cache s1 = cache s"
    using ap by simp
  moreover have "if failed_attempt (last [x])
         then attempt + length [x] = total_attempts
              \<and> r = failure (url request)
                    (Some (name adapter @ '': '' @ most_recent_error dflt [x]))
         else last [x] = Inr r"
    using fin by simp
  ultimately show ?thesis
    unfolding retry_post_def by simp
qed

lemma retry_post_more:
  assumes af: "attempt_fetch adapter request s = (x, s1)"
    and failed: "failed_attempt x"
    and more: "Suc attempt < total_attempts"
    and po: "retry_post rt adapter request (retry_backoff_s config) total_attempts (Suc attempt)
               (case error_text x of Some t \<Rightarrow> t | None \<Rightarrow> dflt)
               (backoff rt config total_attempts attempt s1) r s' outs"
  shows "retry_post rt adapter request (retry_backoff_s config) total_attempts attempt dflt
           s r s' (x # outs)"
proof -
  let ?b = "retry_backoff_s config"
  let ?s2 = "backoff rt config total_attempts attempt s1"
  let ?d = "case error_text x of Some t \<Rightarrow> t | None \<Rightarrow> dflt"
  let ?k = "length outs"
  note ap = attempt_fetch_props [OF af]
  note st = attempt_fetch_state [OF af]
  note bs = backoff_state [OF more, of rt config s1]
  have ne: "outs \<noteq> []"
    and len: "Suc attempt + ?k \<le> total_attempts"
    and outs: "outs = attempt_outcomes rt adapter request ?b (Suc attempt) ?k (world ?s2)"
    and state: "s' = ?s2\<lparr>world := attempts_world rt adapter request ?b (Suc attempt) ?k (world ?s2),
                         trace := trace ?s2 @ retry_events (name adapter) (url request) ?b
                                                (Suc attempt) outs\<rparr>"
    and butl: "list_all failed_attempt (butlast outs)"
    and ffetch: "list_all (\<lambda>x. \<exists>w. x = fst (fetch adapter request w)) outs"
    and fin: "if failed_attempt (last outs)
         then Suc attempt + ?k = total_attempts
              \<and> r = failure (url request)
                    (Some (name adapter @ '': '' @ most_recent_error ?d outs))
         else last outs = Inr r"
    using po unfolding retry_post_def by blast+
  have w1: "world s1 = snd (fetch adapter request (world s))"
    by (subst st) simp
  have t1: "trace s1 = trace s @ [EvFetch (name adapter) (url request) x]"
    using ap by simp
  have w2: "world ?s2 = sleep rt (?b * 2 ^ attempt) (snd (fetch adapter request (world s)))"
    by (simp add: bs w1)
  have kpos: "?k \<noteq> 0"
    using ne by simp
  have c1: "x # outs \<noteq> []"
    by simp
  have c2: "attempt + length (x # outs) \<le> total_attempts"
    using len by simp
  have "attempt_outcomes rt adapter request ?b attempt (Suc ?k) (world s)
          = x # attempt_outcomes rt adapter request ?b (Suc attempt) ?k (world ?s2)"
    using ap by (simp add: w2)
  then have c3: "x # outs
          = attempt_outcomes rt adapter request ?b attempt (length (x # outs)) (world s)"
    using outs by simp
  have aw: "attempts_world rt adapter request ?b attempt (Suc ?k) (world s)
          = attempts_world rt adapter request ?b (Suc attempt) ?k (world ?s2)"
    using kpos by (simp add: w2)
  have ev: "retry_events (name adapter) (url request) ?b attempt (x # outs)
          = EvFetch (name adapter) (url request) x # EvSleep (?b * 2 ^ attempt)
              # retry_events (name adapter) (url request) ?b (Suc attempt) outs"
    using ne by (rule retry_events_Cons)
  have "?s2 = s1\<lparr>world := sleep rt (?b * 2 ^ attempt) (snd (fetch adapter request (world s))),
                   trace := trace s @ [EvFetch (name adapter) (url request) x,
                                       EvSleep (?b * 2 ^ attempt)]\<rparr>"
    by (simp add: bs w1 t1)
  then have s2: "?s2 = s\<lparr>world := sleep rt (?b * 2 ^ attempt) (snd (fetch adapter request (world s))),
                    trace := trace s @ [EvFetch (name adapter) (url request) x,
                                        EvSleep (?b * 2 ^ attempt)]\<rparr>"
    by (subst (asm) (2) st) simp
  have c4: "s' = s\<lparr>world := attempts_world rt adapter request ?b attempt (length (x # outs)) (world s),
                   trace := trace s @ retry_events (name adapter) (url request) ?b attempt
                                         (x # outs)\<rparr>"
    by (subst state, subst (1 2) s2) (simp add: aw ev w2 del: attempts_world.simps)
  have c5: "trace s' = trace s @ retry_events (name adapter) (url request) ?b attempt (x # outs)"
    by (subst c4) simp
  have c6: "cache s' = cache s"
    by (subst c4) simp
  have c7: "list_all failed_attempt (butlast (x # outs))"
    using ne butl failed by simp
  have c8: "list_all (\<lambda>x. \<exists>w. x = fst (fetch adapter request w)) (x # outs)"
    using ffetch ap by auto
  have c9: "if failed_attempt (last (x # outs))
         then attempt + length (x # outs) = total_attempts
              \<and> r = failure (url request)
                    (Some (name adapter @ '': '' @ most_recent_error dflt (x # outs)))
         else last (x # outs) = Inr r"
    using fin ne by (cases "failed_attempt (last outs)") (simp_all add: most_recent_error_Cons)
  from c1 c2 c3 c4 c5 c6 c7 c8 c9 show ?thesis
    unfolding retry_post_def by blast
qed

lemma retry_loop_spec:
  "attempt < total_attempts \<Longrightarrow>
   retry_loop rt config adapter request total_attempts attempt dflt s = (r, s') \<Longrightarrow>
   \<exists>outs. retry_post rt adapter request (retry_backoff_s config) total_attempts attempt dflt s r s' outs"
proof (induction "total_attempts - attempt" arbitrary: attempt dflt s)
  case 0
  then show ?case by simp
next
  case (Suc k)
  obtain x s1 where af: "attempt_fetch adapter request s = (x, s1)"
    by (cases "attempt_fetch adapter request s")
  let ?s2 = "backoff rt config total_attempts attempt s1"
  let ?d = "case error_text x of Some t \<Rightarrow> t | None \<Rightarrow> dflt"
  note unfold = retry_loop.simps [of rt config adapter request total_attempts attempt dflt s]
  show ?case
  proof (cases "failed_attempt x")
    case False
    then obtain res where x: "x = Inr res" and okr: "ok res"
      by (auto simp: failed_attempt_def split: sum.splits)
    from Suc.prems af x okr have "r = res" "s' = s1"
      by (simp_all add: unfold)
    then have "retry_post rt adapter request (retry_backoff_s config) total_attempts attempt
                 dflt s r s' [x]"
      using retry_post_one [OF af Suc.prems(1), of r dflt rt "retry_backoff_s config"] x False
      by simp
    then show ?thesis by blast
  next
    case True
    have rec: "retry_loop rt config adapter request total_attempts (Suc attempt) ?d ?s2 = (r, s')"
      using Suc.prems af True
      by (cases x)
         (auto simp: unfold failed_attempt_def error_text_Inl error_text_Inr)
    show ?thesis
    proof (cases "Suc attempt < total_attempts")
      case more: True
      have "k = total_attempts - Suc attempt"
        using Suc.hyps(2) by simp
      from Suc.hyps(1) [OF this more rec]
      obtain outs where po: "retry_post rt adapter request (retry_backoff_s config) total_attempts
                               (Suc attempt) ?d ?s2 r s' outs"
        by blast
      have "retry_post rt adapter request (retry_backoff_s config) total_attempts attempt dflt
              s r s' (x # outs)"
        using af True more po by (rule retry_post_more)
      then show ?thesis by blast
    next
      case nomore: False
      with Suc.prems(1) have tot_eq: "Suc attempt = total_attempts" by simp
      have res: "r = failure (url request) (Some (name adapter @ '': '' @ ?d))" and st: "s' = s1"
        using rec tot_eq backoff_last [OF nomore, of rt config s1]
        by (simp_all add: retry_loop_done)
      have "most_recent_error dflt [x] = ?d"
        by (simp add: most_recent_error_def List.map_filter_simps split: option.splits)
      then have "retry_post rt adapter request (retry_backoff_s config) total_attempts attempt
                   dflt s r s' [x]"
        using retry_post_one [OF af Suc.prems(1), of r dflt rt "retry_backoff_s config"]
              True tot_eq res st
        by simp
      then show ?thesis by blast
    qed
  qed
qed

lemma fetch_with_retries_total_post:
  "fetch_with_retries rt config adapter request s = (r, s') \<Longrightarrow>
   \<exists>outs. retry_post rt adapter request (retry_backoff_s config)
            (nat (max 1 (max_retries config + 1))) 0 ''Unknown fetch error.'' s r s' outs"
  by (intro retry_loop_spec) (simp_all add: fetch_with_retries_def)

lemma most_recent_error_all:
  "outs \<noteq> [] \<Longrightarrow> list_all (\<lambda>x. error_text x = Some msg) outs \<Longrightarrow>
   most_recent_error dflt outs = msg"
proof (induction outs arbitrary: dflt)
  case Nil
  then show ?case by simp
next
  case (Cons x outs)
  show ?case
  proof (cases "outs = []")
    case True
    with Cons.prems show ?thesis
      by (simp add: most_recent_error_def List.map_filter_simps)
  next
    case False
    with Cons show ?thesis
      by (simp add: most_recent_error_Cons)
  qed
qed







section \<open>The cache\<close>










section \<open>Where the failures of a fetch go\<close>














section \<open>A batch of sources\<close>

text \<open>
  As long as no \<open>can_handle\<close> raises, a batch goes through: with the gate open,
  well-behaved adapters and a sound cache, \<open>gather\<close> returns one result for each request, in
  the order of the requests, each with the URL of its request, and each a success or a
  failure with an error text.
\<close>

lemma fetch_with_retries_url:
  assumes "well_behaved adapter"
    and "fetch_with_retries rt config adapter request s = (r, s')"
  shows "res_url r = url request \<and> cache s' = cache s \<and> (ok r \<or> truthy (error r))"
proof -
  from fetch_with_retries_total_post [OF assms(2)] obtain outs
    where post: "retry_post rt adapter request (retry_backoff_s config)
                   (nat (max 1 (max_retries config + 1))) 0 ''Unknown fetch error.'' s r s' outs"
    by blast
  have ne: "outs \<noteq> []" and same: "cache s' = cache s"
    and from_fetch: "list_all (\<lambda>x. \<exists>w. x = fst (fetch adapter request w)) outs"
    using post by (simp_all add: retry_post_def)
  show ?thesis
  proof (cases "failed_attempt (last outs)")
    case True
    then have "r = failure (url request)
                 (Some (name adapter @ '': '' @ most_recent_error ''Unknown fetch error.'' outs))"
      using post by (simp add: retry_post_def)
    then show ?thesis
      using same by (simp add: failure_def truthy_def)
  next
    case False
    then have last: "last outs = Inr r"
      using post by (simp add: retry_post_def)
    with False have "ok r"
      by (simp add: failed_attempt_def)
    moreover have "last outs \<in> set outs"
      using ne by simp
    then have "\<exists>w. last outs = fst (fetch adapter request w)"
      using from_fetch by (simp add: list_all_iff)
    then have "res_url r = url request"
      using last assms(1) by (metis well_behaved_def)
    ultimately show ?thesis
      using same by simp
  qed
qed

lemma set_cached_sound:
  assumes "sound_cache s" and "res_url r = u" and "ok r \<or> truthy (error r)"
  shows "sound_cache (set_cached rt config u r s)"
  unfolding sound_cache_def
proof (intro allI impI)
  fix u' d' r'
  assume look: "cache (set_cached rt config u r s) u' = Some (d', r')"
  show "res_url r' = u' \<and> (ok r' \<or> truthy (error r'))"
  proof (cases "u' = u")
    case True
    with look have "r' = r"
      by (simp add: set_cached_def Let_def)
    with True assms(2,3) show ?thesis by simp
  next
    case False
    with look have "cache s u' = Some (d', r')"
      by (simp add: set_cached_def Let_def)
    then show ?thesis
      using assms(1) unfolding sound_cache_def by blast
  qed
qed

lemma get_cached_sound:
  assumes "sound_cache s" and "get_cached rt u s = (x, s')"
  shows "sound_cache s' \<and> (\<forall>r. x = Some r \<longrightarrow> res_url r = u \<and> (ok r \<or> truthy (error r)))"
proof (cases "cache s u")
  case None
  with assms show ?thesis
    by (simp add: get_cached_def)
next
  case (Some entry)
  obtain deadline r where entry: "entry = (deadline, r)"
    by (cases entry)
  have here: "res_url r = u \<and> (ok r \<or> truthy (error r))"
    using assms(1) Some entry unfolding sound_cache_def by blast
  show ?thesis
  proof (cases "deadline \<le> time_now rt (world s)")
    case True
    with assms(2) Some entry have "x = None" and s': "s' = s\<lparr>cache := (cache s)(u := None)\<rparr>"
      by (simp_all add: get_cached_def)
    have "sound_cache s'"
      unfolding sound_cache_def s'
    proof (intro allI impI)
      fix u' d' r'
      assume "cache (s\<lparr>cache := (cache s)(u := None)\<rparr>) u' = Some (d', r')"
      then have "cache s u' = Some (d', r')"
        by (simp split: if_splits)
      then show "res_url r' = u' \<and> (ok r' \<or> truthy (error r'))"
        using assms(1) unfolding sound_cache_def by blast
    qed
    with \<open>x = None\<close> show ?thesis by simp
  next
    case False
    with assms(2) Some entry have "x = Some r" "s' = s"
      by (simp_all add: get_cached_def)
    with assms(1) here show ?thesis by simp
  qed
qed

lemma adapter_walk_sound:
  "list_all well_behaved adapters \<Longrightarrow> sound_cache s \<Longrightarrow> truthy dflt \<Longrightarrow>
   adapter_walk rt config adapters request dflt s = (e, s') \<Longrightarrow>
   (case e of
      Accepted r \<Rightarrow> sound_cache s' \<and> res_url r = url request \<and> ok r
    | Exhausted fb \<Rightarrow> sound_cache s' \<and> truthy fb
    | Raised exc \<Rightarrow> True)"
proof (induction adapters arbitrary: dflt s)
  case Nil
  then show ?case by auto
next
  case (Cons a rest)
  show ?case
  proof (cases "can_handle a request")
    case (Inl exc)
    with Cons.prems show ?thesis by auto
  next
    case (Inr b)
    show ?thesis
    proof (cases b)
      case False
      with Cons Inr show ?thesis by simp
    next
      case True
      obtain r1 s1 where run: "fetch_with_retries rt config a request s = (r1, s1)"
        by (cases "fetch_with_retries rt config a request s")
      from Cons.prems(1) have wb: "well_behaved a" and wbs: "list_all well_behaved rest"
        by simp_all
      from fetch_with_retries_url [OF wb run]
      have u1: "res_url r1 = url request" and c1: "cache s1 = cache s"
        and e1: "ok r1 \<or> truthy (error r1)"
        by simp_all
      have sound1: "sound_cache s1"
        using Cons.prems(2) c1 by (simp add: sound_cache_def)
      show ?thesis
      proof (cases "ok r1 \<and> signals r1 \<noteq> []")
        case acc: True
        with Cons.prems(4) Inr True run
        have "e = Accepted r1" "s' = set_cached rt config (url request) r1 s1"
          by auto
        then show ?thesis
          using acc u1 set_cached_sound [OF sound1 u1, of rt config] by simp
      next
        case nacc: False
        let ?d = "if truthy (error r1) then error r1 else dflt"
        have "adapter_walk rt config rest request ?d s1 = (e, s')"
          using Cons.prems(4) Inr True run nacc by auto
        moreover have "truthy ?d"
          using Cons.prems(3) by simp
        ultimately show ?thesis
          using Cons.IH [OF wbs sound1] by blast
      qed
    qed
  qed
qed

lemma scrape_url_sound:
  assumes "list_all well_behaved adapters" and "sound_cache s"
    and "scrape_url rt config adapters request s = (Returns r, s')"
  shows "sound_cache s' \<and> res_url r = url request \<and> (ok r \<or> truthy (error r))"
proof -
  obtain x s0 where look: "get_cached rt (url request) s = (x, s0)"
    by (cases "get_cached rt (url request) s")
  note g = get_cached_sound [OF assms(2) look]
  show ?thesis
  proof (cases x)
    case (Some cached)
    with assms(3) look have "r = cached" "s' = s0"
      by (simp_all add: scrape_url_def)
    with g Some show ?thesis by simp
  next
    case None
    obtain e s2 where walk: "adapter_walk rt config adapters request
                               (Some ''No adapter accepted this URL.'') s0 = (e, s2)"
      by (cases "adapter_walk rt config adapters request
                   (Some ''No adapter accepted this URL.'') s0")
    have t: "truthy (Some ''No adapter accepted this URL.'')"
      by (simp add: truthy_def)
    from g have s0: "sound_cache s0" by simp
    note w = adapter_walk_sound [OF assms(1) s0 t walk]
    show ?thesis
    proof (cases e)
      case (Accepted r1)
      with assms(3) look None walk have "r = r1" "s' = s2"
        by (auto simp: scrape_url_def split: if_splits)
      with w Accepted show ?thesis by simp
    next
      case (Raised exc)
      with assms(3) look None walk show ?thesis
        by (auto simp: scrape_url_def split: if_splits)
    next
      case (Exhausted fb)
      with assms(3) look None walk
      have r: "r = failure (url request) fb"
        and s': "s' = set_cached rt config (url request) (failure (url request) fb) s2"
        by (auto simp: scrape_url_def Let_def split: if_splits)
      from w Exhausted have "sound_cache s2" "truthy fb"
        by simp_all
      then show ?thesis
        unfolding r s'
        by (auto intro!: set_cached_sound simp: failure_def)
    qed
  qed
qed

lemma scrape_url_returns:
  assumes "0 < max_parallel_fetches config"
    and "list_all (\<lambda>a. \<exists>b. can_handle a request = Inr b) adapters"
  shows "\<exists>r s'. scrape_url rt config adapters request s = (Returns r, s')"
proof -
  obtain x s0 where look: "get_cached rt (url request) s = (x, s0)"
    by (cases "get_cached rt (url request) s")
  show ?thesis
  proof (cases x)
    case (Some cached)
    with look show ?thesis by (simp add: scrape_url_def)
  next
    case None
    from adapter_walk_spec [OF assms(2), of rt config "Some ''No adapter accepted this URL.''" s0]
    obtain e s2 where "adapter_walk rt config adapters request
                         (Some ''No adapter accepted this URL.'') s0 = (e, s2)"
      and "\<forall>exc. e \<noteq> Raised exc"
      unfolding walk_post_def by auto
    then show ?thesis
      using look None assms(1)
      by (cases e) (auto simp: scrape_url_def Let_def)
  qed
qed

lemma gather_one_result_per_request:
  assumes "0 < max_parallel_fetches config"
    and "list_all well_behaved adapters"
    and "list_all (\<lambda>request. list_all (\<lambda>a. \<exists>b. can_handle a request = Inr b) adapters) reqs"
    and "sound_cache s"
  shows "\<exists>rs s'. gather rt config adapters reqs s = (Returns rs, s')
           \<and> map res_url rs = map url reqs
           \<and> list_all (\<lambda>r. ok r \<or> truthy (error r)) rs
           \<and> sound_cache s'"
  using assms(3,4)
proof (induction reqs arbitrary: s)
  case Nil
  then show ?case by simp
next
  case (Cons req reqs)
  from Cons.prems(1) have here: "list_all (\<lambda>a. \<exists>b. can_handle a req = Inr b) adapters"
    and later: "list_all (\<lambda>request. list_all (\<lambda>a. \<exists>b. can_handle a request = Inr b) adapters) reqs"
    by simp_all
  from scrape_url_returns [OF assms(1) here, of rt s] obtain r s1
    where one: "scrape_url rt config adapters req s = (Returns r, s1)"
    by blast
  from scrape_url_sound [OF assms(2) Cons.prems(2) one]
  have s1: "sound_cache s1" and u: "res_url r = url req" and e: "ok r \<or> truthy (error r)"
    by simp_all
  from Cons.IH [OF later s1] obtain rs s2
    where rest: "gather rt config adapters reqs s1 = (Returns rs, s2)"
      and urls: "map res_url rs = map url reqs"
      and errs: "list_all (\<lambda>r. ok r \<or> truthy (error r)) rs"
      and s2: "sound_cache s2"
    by blast
  have "gather rt config adapters (req # reqs) s = (Returns (r # rs), s2)"
    using one rest by simp
  then show ?case
    using u urls e errs s2 by simp
qed

text \<open>
  The text "See http://[oops" yields the URL \<open>http://[oops\<close>, whose network location has
  an opening bracket and no closing one: \<open>urlparse\<close> raises on it, whatever the library.
\<close>

lemma url_parts_bad:
  "url_parts ''http://[oops''
     = \<lparr>scheme = ''http'', netloc = ''[oops'', path = [], params = [], query = [],
        fragment = []\<rparr>"
  by code_simp

lemma urlparse_bad: "urlparse py ''http://[oops'' = Inl (ValueError ''Invalid IPv6 URL'')"
  by (simp add: urlparse_def url_parts_bad)

lemma extract_bad: "extract_resolution_urls ''See http://[oops'' [] [] = [''http://[oops'']"
  by code_simp

text \<open>
  C5 (the code departs from the claim). \<open>scrape_question_sources\<close> is claimed never to
  raise, also on a malformed URL. On the question whose resolution criteria are
  "See http://[oops", with the default configuration, the default chain (whatever the
  static and the browser adapter are) and an empty cache, it raises \<open>ValueError\<close>: the walk
  asks the Wikipedia adapter first, its \<open>can_handle\<close> calls \<open>urlparse\<close>, and \<open>scrape_url\<close>
  calls \<open>can_handle\<close> outside the \<open>try\<close> of the retry loop. Nothing is fetched, cached or
  returned.
\<close>

theorem scrape_question_sources_raises:
  "scrape_question_sources py rt default_config
     (build_default_adapters py rt default_config static_html browser)
     [''resolution_criteria'' \<mapsto> PStr ''See http://[oops'']
     \<lparr>world = w, cache = Map.empty, trace = []\<rparr>
   = (Raises (ValueError ''Invalid IPv6 URL''), \<lparr>world = w, cache = Map.empty, trace = []\<rparr>)"
proof -
  let ?qd = "[''resolution_criteria'' \<mapsto> PStr ''See http://[oops'']"
  let ?s = "\<lparr>world = w, cache = Map.empty, trace = []\<rparr>"
  have texts: "get_str py ?qd ''resolution_criteria'' = ''See http://[oops''"
    "get_str py ?qd ''fine_print'' = []" "get_str py ?qd ''description'' = []"
    by (simp_all add: get_str_def py_str_def)
  have req: "url (build_request py ?qd ''http://[oops'') = ''http://[oops''"
    by (simp add: build_request_def)
  have miss: "get_cached rt ''http://[oops'' ?s = (None, ?s)"
    by (simp add: get_cached_def)
  have walk: "adapter_walk rt default_config
                (build_default_adapters py rt default_config static_html browser)
                (build_request py ?qd ''http://[oops'')
                (Some ''No adapter accepted this URL.'') ?s
              = (Raised (ValueError ''Invalid IPv6 URL''), ?s)"
    by (simp add: build_default_adapters_def default_config_def WikipediaAdapter_def
          wikipedia_can_handle_def req urlparse_bad)
  have one: "scrape_url rt default_config
               (build_default_adapters py rt default_config static_html browser)
               (build_request py ?qd ''http://[oops'') ?s
             = (Raises (ValueError ''Invalid IPv6 URL''), ?s)"
    using walk miss by (simp add: scrape_url_def req) (simp add: default_config_def)
  show ?thesis
    by (simp add: scrape_question_sources_def texts extract_bad one)
qed

section \<open>Classification of URLs\<close>





section \<open>The snapshot of signals\<close>














section \<open>The CSV adapter\<close>










section \<open>The walk over a JSON payload\<close>

lemma level_order_Nil: "level_order [] = []"
  by (simp add: level_order.simps)

lemma level_order_unfold:
  "nodes \<noteq> [] \<Longrightarrow> level_order nodes = nodes @ level_order (concat (map enqueued nodes))"
  by (subst level_order.simps) simp

lemma level_order_append:
  "level_order (a @ b) = a @ level_order (b @ concat (map enqueued a))"
proof (induction "a @ b" arbitrary: a b rule: level_order.induct)
  case 1
  show ?case
  proof (cases "a @ b = []")
    case True
    then show ?thesis by (simp add: level_order_Nil)
  next
    case False
    let ?ka = "concat (map enqueued a)" and ?kb = "concat (map enqueued b)"
    have next_level: "concat (map enqueued (a @ b)) = ?ka @ ?kb"
      by simp
    have ih: "level_order (?ka @ ?kb) = ?ka @ level_order (?kb @ concat (map enqueued ?ka))"
      using "1.hyps" [OF False next_level] .
    have lhs: "level_order (a @ b) = (a @ b) @ ?ka @ level_order (?kb @ concat (map enqueued ?ka))"
      using level_order_unfold [OF False] ih by simp
    show ?thesis
    proof (cases "b @ ?ka = []")
      case True
      then have b: "b = []" and ka: "?ka = []"
        by simp_all
      have "level_order (a @ b) = (a @ b) @ ?ka @ level_order (?kb @ concat (map enqueued ?ka))"
        by (rule lhs)
      also have "\<dots> = a"
        unfolding ka b by (simp add: level_order_Nil)
      finally have left: "level_order (a @ b) = a" .
      have right: "level_order (b @ ?ka) = []"
        unfolding ka b by (simp add: level_order_Nil)
      show ?thesis
        unfolding left right by simp
    next
      case ne: False
      have "level_order (b @ ?ka) = (b @ ?ka) @ level_order (?kb @ concat (map enqueued ?ka))"
        using level_order_unfold [OF ne] by simp
      then show ?thesis
        using lhs by simp
    qed
  qed
qed

lemma level_order_Cons:
  "level_order (node # queue) = node # level_order (queue @ enqueued node)"
  using level_order_append [of "[node]" queue] by simp

lemma enqueued_scalar:
  "is_bool (snd node) \<or> is_int_or_float (snd node) \<Longrightarrow> enqueued node = []"
  by (cases node; cases "snd node")
     (auto simp: enqueued_def is_bool_def is_int_or_float_def)

lemma extract_loop_level_order:
  "fst (extract_loop queue visited)
     = find (\<lambda>node. numeric_leaf (snd node)) (take (max_nodes - visited) (level_order queue))"
proof (induction queue visited rule: extract_loop.induct)
  case (1 visited)
  then show ?case
    by (simp add: extract_loop.simps level_order_Nil)
next
  case (2 node queue visited)
  show ?case
  proof (cases "visited < max_nodes")
    case False
    then show ?thesis
      by (simp add: extract_loop.simps)
  next
    case True
    then have tk: "take (max_nodes - visited) (level_order (node # queue))
                     = node # take (max_nodes - (visited + 1)) (level_order (queue @ enqueued node))"
      by (simp add: level_order_Cons take_Cons')
    show ?thesis
    proof (cases "is_bool (snd node)")
      case bool: True
      then have "enqueued node = []"
        by (simp add: enqueued_scalar)
      then show ?thesis
        using True bool "2.IH"(1) tk
        by (simp add: extract_loop.simps(2) [of node queue visited] numeric_leaf_def)
    next
      case nbool: False
      show ?thesis
      proof (cases "is_int_or_float (snd node)")
        case True
        then show ?thesis
          using \<open>visited < max_nodes\<close> nbool tk
          by (simp add: extract_loop.simps(2) [of node queue visited] numeric_leaf_def)
      next
        case False
        then show ?thesis
          using \<open>visited < max_nodes\<close> nbool "2.IH"(2) tk
          by (simp add: extract_loop.simps(2) [of node queue visited] numeric_leaf_def)
      qed
    qed
  qed
qed

lemma extract_loop_visited:
  "snd (extract_loop queue visited) \<le> max visited max_nodes"
proof (induction queue visited rule: extract_loop.induct)
  case (1 visited)
  then show ?case by (simp add: extract_loop.simps)
next
  case (2 node queue visited)
  show ?case
  proof (cases "visited < max_nodes")
    case False
    then show ?thesis by (simp add: extract_loop.simps)
  next
    case True
    then show ?thesis
      using "2.IH"
      by (simp add: extract_loop.simps(2) [of node queue visited])
  qed
qed

lemma concat_map_filter_empty:
  "(\<And>x. \<not> Q x \<Longrightarrow> f x = []) \<Longrightarrow> concat (map f (filter Q xs)) = concat (map f xs)"
  by (induction xs) auto

lemma lookup_entries:
  "distinct (map fst kvs) \<Longrightarrow> set xs \<subseteq> set kvs \<Longrightarrow>
   concat (map (\<lambda>key. case map_of kvs key of Some v \<Rightarrow> [(pth @ ''.'' @ key, v)] | None \<Rightarrow> [])
             (filter R (map fst xs)))
     = map (\<lambda>(k, v). (pth @ ''.'' @ k, v)) (filter (\<lambda>(k, v). R k) xs)"
proof (induction xs)
  case Nil
  then show ?case by simp
next
  case (Cons x xs)
  obtain k v where x: "x = (k, v)"
    by (cases x)
  with Cons.prems have look: "map_of kvs k = Some v"
    by (intro map_of_is_SomeI) simp_all
  from Cons x show ?case
    by (simp add: look)
qed

lemma enqueued_dict:
  assumes "distinct (map fst kvs)"
  shows "enqueued (pth, PDict kvs)
     = concat (map (\<lambda>key. case map_of kvs key of
                               Some v \<Rightarrow> [(pth @ ''.'' @ key, v)]
                             | None \<Rightarrow> []) priority_keys)
       @ map (\<lambda>(k, v). (pth @ ''.'' @ k, v)) (filter (\<lambda>(k, v). k \<notin> set priority_keys) kvs)"
proof -
  let ?f = "\<lambda>key. case map_of kvs key of Some v \<Rightarrow> [(pth @ ''.'' @ key, v)] | None \<Rightarrow> []"
  have absent: "?f k = []" if "\<not> k \<in> set (map fst kvs)" for k
  proof -
    from that have "map_of kvs k = None"
      by (simp add: map_of_eq_None_iff)
    then show ?thesis by simp
  qed
  have first: "concat (map ?f (filter (\<lambda>k. k \<in> set (map fst kvs)) priority_keys))
                 = concat (map ?f priority_keys)"
    using absent by (rule concat_map_filter_empty)
  have second: "concat (map ?f (filter (\<lambda>k. k \<notin> set priority_keys) (map fst kvs)))
                  = map (\<lambda>(k, v). (pth @ ''.'' @ k, v))
                      (filter (\<lambda>(k, v). k \<notin> set priority_keys) kvs)"
    using assms by (intro lookup_entries) simp_all
  show ?thesis
    unfolding first [symmetric] second [symmetric]
    by (simp add: enqueued_def Let_def)
qed

text \<open>
  C8. \<open>_extract_numeric_value\<close> returns the first numeric leaf (an int or a float, not a
  bool) among the first 2000 nodes of the payload in breadth-first order, with its path,
  and nothing when there is none among them; it visits at most 2000 nodes. The order is
  that of a queue: a node is followed by the rest of the queue and then by what the node
  enqueues. An object (its keys distinct) enqueues the entries of the keys value, count,
  total, articles, result, latest, data that are present, in this order, and then its
  other entries in their original order; an array enqueues its first 20 elements. For the
  payload \<open>{"other": 5, "total": 9}\<close> the result is 9 at \<open>$.total\<close>.
\<close>

theorem extract_numeric_value_bfs:
  "extract_numeric_value payload
     = find (\<lambda>node. numeric_leaf (snd node)) (take 2000 (level_order [(''$'', payload)]))
   \<and> snd (extract_loop [(''$'', payload)] 0) \<le> 2000
   \<and> level_order (node # queue) = node # level_order (queue @ enqueued node)
   \<and> (distinct (map fst kvs) \<longrightarrow>
        enqueued (pth, PDict kvs)
          = concat (map (\<lambda>key. case map_of kvs key of
                                    Some v \<Rightarrow> [(pth @ ''.'' @ key, v)]
                                  | None \<Rightarrow> [])
                      [''value'', ''count'', ''total'', ''articles'', ''result'', ''latest'',
                       ''data''])
            @ map (\<lambda>(k, v). (pth @ ''.'' @ k, v))
                (filter (\<lambda>(k, v). k \<notin> set priority_keys) kvs))
   \<and> enqueued (pth, PList items)
       = map (\<lambda>(i, item). (pth @ ''['' @ show_nat i @ '']'', item))
           (enumerate 0 (take 20 items))
   \<and> length (enqueued (pth, PList items)) \<le> 20
   \<and> extract_numeric_value (PDict [(''other'', PInt 5), (''total'', PInt 9)])
       = Some (''$.total'', PInt 9)"
proof (intro conjI impI)
  show "extract_numeric_value payload
     = find (\<lambda>node. numeric_leaf (snd node)) (take 2000 (level_order [(''$'', payload)]))"
    using extract_loop_level_order [of "[(''$'', payload)]" 0]
    by (simp add: extract_numeric_value_def max_nodes_def)
next
  show "snd (extract_loop [(''$'', payload)] 0) \<le> 2000"
    using extract_loop_visited [of "[(''$'', payload)]" 0]
    by (simp add: max_nodes_def)
next
  show "level_order (node # queue) = node # level_order (queue @ enqueued node)"
    by (rule level_order_Cons)
next
  assume "distinct (map fst kvs)"
  then show "enqueued (pth, PDict kvs)
          = concat (map (\<lambda>key. case map_of kvs key of
                                    Some v \<Rightarrow> [(pth @ ''.'' @ key, v)]
                                  | None \<Rightarrow> [])
                      [''value'', ''count'', ''total'', ''articles'', ''result'', ''latest'',
                       ''data''])
            @ map (\<lambda>(k, v). (pth @ ''.'' @ k, v))
                (filter (\<lambda>(k, v). k \<notin> set priority_keys) kvs)"
    using enqueued_dict [of kvs pth] by (simp add: priority_keys_def)
next
  show "enqueued (pth, PList items)
       = map (\<lambda>(i, item). (pth @ ''['' @ show_nat i @ '']'', item))
           (enumerate 0 (take 20 items))"
    by (simp add: enqueued_def)
next
  show "length (enqueued (pth, PList items)) \<le> 20"
    by (simp add: enqueued_def)
next
  show "extract_numeric_value (PDict [(''other'', PInt 5), (''total'', PInt 9)])
       = Some (''$.total'', PInt 9)"
    by code_simp
qed

text \<open>
  The theorem at the object of the example, which enqueues total before other; beside it,
  a walk that passes a bool and a string of an array before it finds a float.
\<close>

theorem extract_numeric_value_bfs_witness:
  "distinct (map fst [(''other'', PInt 5), (''total'', PInt 9)])
   \<and> enqueued (''$'', PDict [(''other'', PInt 5), (''total'', PInt 9)])
       = [(''$.total'', PInt 9), (''$.other'', PInt 5)]
   \<and> extract_numeric_value (PDict [(''rows'', PList [PBool True, PStr ''x'', PFloat (3 / 2)])])
       = Some (''$.rows[2]'', PFloat (3 / 2))"
proof -
  have d: "distinct (map fst [(''other'', PInt 5), (''total'', PInt 9)])"
    by simp
  note inst = extract_numeric_value_bfs [where kvs = "[(''other'', PInt 5), (''total'', PInt 9)]"
      and pth = "''$''"]
  have "enqueued (''$'', PDict [(''other'', PInt 5), (''total'', PInt 9)])
          = concat (map (\<lambda>key. case map_of [(''other'', PInt 5), (''total'', PInt 9)] key of
                                    Some v \<Rightarrow> [(''$'' @ ''.'' @ key, v)]
                                  | None \<Rightarrow> [])
                      [''value'', ''count'', ''total'', ''articles'', ''result'', ''latest'',
                       ''data''])
            @ map (\<lambda>(k, v). (''$'' @ ''.'' @ k, v))
                (filter (\<lambda>(k, v). k \<notin> set priority_keys)
                   [(''other'', PInt 5), (''total'', PInt 9)])"
    using inst d by blast
  then have a: "enqueued (''$'', PDict [(''other'', PInt 5), (''total'', PInt 9)])
       = [(''$.total'', PInt 9), (''$.other'', PInt 5)]"
    by (simp add: priority_keys_def)
  have b: "extract_numeric_value (PDict [(''rows'', PList [PBool True, PStr ''x'', PFloat (3 / 2)])])
       = Some (''$.rows[2]'', PFloat (3 / 2))"
    by code_simp
  from d a b show ?thesis
    by blast
qed

end
